theory Spec2Isabelle
  imports Main "HOL-Library.Word"
begin

section \<open>Operator registry of paddle/framework: a shallow embedding\<close>

text \<open>
  The development embeds \<^verbatim>\<open>paddle/framework/op_registry.h\<close> and
  \<^verbatim>\<open>paddle/framework/net.cc\<close>. Classes are records, the static tables of
  \<^verbatim>\<open>OpRegistry\<close> are one record of maps that is passed in and returned, and every
  exception of the source (\<^verbatim>\<open>PADDLE_ENFORCE\<close>, \<^verbatim>\<open>unordered_map::at\<close>,
  \<^verbatim>\<open>boost::get\<close>) is a value \<open>Inl e\<close> of a sum type.

  Names follow the source. A name cannot end in an underscore here, so a data member
  \<^verbatim>\<open>x_\<close> is written without it, with the class in front where the bare word would be
  ambiguous: \<^verbatim>\<open>type_\<close>, \<^verbatim>\<open>inputs_\<close>, \<^verbatim>\<open>outputs_\<close>, \<^verbatim>\<open>attrs_\<close> of
  \<^verbatim>\<open>OperatorBase\<close> are \<open>op_type\<close>, \<open>op_inputs\<close>, \<open>op_outputs\<close>, \<open>op_attrs\<close>;
  \<^verbatim>\<open>proto_\<close> and \<^verbatim>\<open>op_checker_\<close> of the maker are \<open>maker_proto\<close> and
  \<open>maker_op_checker\<close>; \<^verbatim>\<open>ops_\<close> of \<^verbatim>\<open>PlainNet\<close> is \<open>net_ops\<close>. Fields of the
  protocol-buffer messages carry the message in front (\<open>proto_inputs\<close>, \<open>var_name\<close>,
  \<open>attr_desc_type\<close>), and the tag \<^verbatim>\<open>INT\<close> is \<open>INT'\<close>.
\<close>

subsection \<open>Machine types and errors\<close>

text \<open>
  A C++ \<^verbatim>\<open>int\<close> is a 32-bit word (read with \<open>sint\<close>), \<^verbatim>\<open>size_t\<close> a 64-bit
  word. A \<^verbatim>\<open>float\<close> is carried as its 32-bit pattern: the registry copies floats and never
  computes with them.
\<close>

type_synonym cint = "32 word"
type_synonym cfloat = "32 word"
type_synonym size_t = "64 word"

datatype error =
    EnforceNotMet string   \<comment> \<open>a failed \<^verbatim>\<open>PADDLE_ENFORCE\<close>, with its message\<close>
  | out_of_range           \<comment> \<open>\<^verbatim>\<open>unordered_map::at\<close> on a missing key\<close>
  | bad_get                \<comment> \<open>\<^verbatim>\<open>boost::get\<close> on a variant that holds another type\<close>

subsection \<open>Attribute values and descriptors\<close>

text \<open>
  \<^verbatim>\<open>Attribute\<close> is the variant of \<^verbatim>\<open>attr_checker.h\<close>; \<^verbatim>\<open>AttrType\<close>,
  \<^verbatim>\<open>AttrDesc\<close>, \<^verbatim>\<open>OpDesc\<close>, \<^verbatim>\<open>VarProto\<close>, \<^verbatim>\<open>AttrProto\<close> and
  \<^verbatim>\<open>OpProto\<close> are the protocol-buffer messages, with the fields that
  \<^verbatim>\<open>op_registry.h\<close> reads and writes. \<open>UNKNOWN_TYPE\<close> stands for every value of the
  tag outside the six enumerated ones: the \<^verbatim>\<open>switch\<close> of \<^verbatim>\<open>GetAttrValue\<close> falls
  through for it.
\<close>

datatype Attribute =
    Blank
  | AInt cint
  | AFloat cfloat
  | AString string
  | AInts "cint list"
  | AFloats "cfloat list"
  | AStrings "string list"

datatype AttrType = INT' | FLOAT | STRING | INTS | FLOATS | STRINGS | UNKNOWN_TYPE

type_synonym AttributeMap = "string \<rightharpoonup> Attribute"

record AttrDesc =
  attr_desc_name :: string
  attr_desc_type :: AttrType
  attr_desc_i :: cint
  attr_desc_f :: cfloat
  attr_desc_s :: string
  attr_desc_ints :: "cint list"
  attr_desc_floats :: "cfloat list"
  attr_desc_strings :: "string list"

record OpDesc =
  op_desc_type :: string
  op_desc_inputs :: "string list"
  op_desc_outputs :: "string list"
  op_desc_attrs :: "AttrDesc list"

record VarProto =
  var_name :: string
  var_comment :: string
  multiple :: bool
  temporary :: bool

record AttrProto =
  attr_name :: string
  attr_comment :: string
  attr_type :: AttrType
  generated :: bool

record OpProto =
  proto_type :: string
  proto_inputs :: "VarProto list"
  proto_outputs :: "VarProto list"
  proto_attrs :: "AttrProto list"
  proto_comment :: string

text \<open>A default-constructed \<^verbatim>\<open>OpProto\<close>, as \<^verbatim>\<open>protos()[type]\<close> inserts for a new key.\<close>

definition empty_OpProto :: OpProto where
  "empty_OpProto =
     \<lparr>proto_type = [], proto_inputs = [], proto_outputs = [], proto_attrs = [],
      proto_comment = []\<rparr>"

text \<open>
  \<^verbatim>\<open>AttrTypeHelper::GetAttrValue\<close>. The three vector cases copy element by element with an
  index loop over \<^verbatim>\<open>ints_size()\<close> (\<^verbatim>\<open>floats_size()\<close>, \<^verbatim>\<open>strings_size()\<close>).
\<close>

definition GetAttrValue :: "AttrDesc \<Rightarrow> error + Attribute" where
  "GetAttrValue attr_desc =
     (case attr_desc_type attr_desc of
        INT' \<Rightarrow> Inr (AInt (attr_desc_i attr_desc))
      | FLOAT \<Rightarrow> Inr (AFloat (attr_desc_f attr_desc))
      | STRING \<Rightarrow> Inr (AString (attr_desc_s attr_desc))
      | INTS \<Rightarrow>
          Inr (AInts (map (\<lambda>i. attr_desc_ints attr_desc ! i)
                       [0..<length (attr_desc_ints attr_desc)]))
      | FLOATS \<Rightarrow>
          Inr (AFloats (map (\<lambda>i. attr_desc_floats attr_desc ! i)
                         [0..<length (attr_desc_floats attr_desc)]))
      | STRINGS \<Rightarrow>
          Inr (AStrings (map (\<lambda>i. attr_desc_strings attr_desc ! i)
                          [0..<length (attr_desc_strings attr_desc)]))
      | UNKNOWN_TYPE \<Rightarrow> Inl (EnforceNotMet ''Unknown OpDesc::AttrDesc::type !''))"

subsection \<open>The schema builder \<^verbatim>\<open>OpProtoAndCheckerMaker\<close>\<close>

text \<open>
  Modelled from the spec: \<^verbatim>\<open>attr_checker.h\<close> is not part of the sources at hand. The spec
  describes \<^verbatim>\<open>AddAttr\<close> as returning ``a chainable checker object supporting
  \<^verbatim>\<open>.SetDefault(value)\<close>''. A \<^verbatim>\<open>TypedAttrChecker\<close> is therefore the attribute's name,
  its static type and the default recorded by \<^verbatim>\<open>SetDefault\<close> (none until it is called);
  an \<^verbatim>\<open>OpAttrChecker\<close> is the list of checkers in the order they were added.
  \<^verbatim>\<open>AddAttrChecker\<close> appends a checker and returns a reference to it, so the chained
  \<^verbatim>\<open>SetDefault\<close> acts on the last element.
\<close>

record TypedAttrChecker =
  checker_attr_name :: string
  checker_attr_type :: AttrType
  default_value :: "Attribute option"

type_synonym OpAttrChecker = "TypedAttrChecker list"

definition AddAttrChecker :: "AttrType \<Rightarrow> string \<Rightarrow> OpAttrChecker \<Rightarrow> OpAttrChecker" where
  "AddAttrChecker T attr_name' chk =
     chk @ [\<lparr>checker_attr_name = attr_name', checker_attr_type = T, default_value = None\<rparr>]"

definition SetDefault :: "Attribute \<Rightarrow> OpAttrChecker \<Rightarrow> OpAttrChecker" where
  "SetDefault v chk =
     (if chk = [] then chk else butlast chk @ [(last chk)\<lparr>default_value := Some v\<rparr>])"

record OpProtoAndCheckerMaker =
  maker_proto :: OpProto
  maker_op_checker :: OpAttrChecker
  validated :: bool
  has_multiple_input :: bool
  has_multiple_output :: bool
  has_temporary_output :: bool

text \<open>The constructor: the flags start as \<^verbatim>\<open>false\<close>.\<close>

definition new_OpProtoAndCheckerMaker :: "OpProto \<Rightarrow> OpAttrChecker \<Rightarrow> OpProtoAndCheckerMaker" where
  "new_OpProtoAndCheckerMaker proto op_checker =
     \<lparr>maker_proto = proto, maker_op_checker = op_checker, validated = False,
      has_multiple_input = False, has_multiple_output = False,
      has_temporary_output = False\<rparr>"

text \<open>
  \<^verbatim>\<open>AddAttr<T>(name, comment, generated)\<close>; the template argument is the first parameter
  (\<^verbatim>\<open>SetAttrType<T>\<close> stores its tag).
\<close>

definition AddAttr ::
  "AttrType \<Rightarrow> string \<Rightarrow> string \<Rightarrow> bool \<Rightarrow> OpProtoAndCheckerMaker \<Rightarrow> OpProtoAndCheckerMaker" where
  "AddAttr T name' comment' generated' m =
     m\<lparr>maker_proto := (maker_proto m)\<lparr>proto_attrs := proto_attrs (maker_proto m) @
            [\<lparr>attr_name = name', attr_comment = comment', attr_type = T,
              generated = generated'\<rparr>]\<rparr>,
        maker_op_checker := AddAttrChecker T name' (maker_op_checker m)\<rparr>"

definition AddComment :: "string \<Rightarrow> OpProtoAndCheckerMaker \<Rightarrow> OpProtoAndCheckerMaker" where
  "AddComment comment' m = m\<lparr>maker_proto := (maker_proto m)\<lparr>proto_comment := comment'\<rparr>\<rparr>"

text \<open>The two documentation strings of the bookkeeping attributes, as the source has them.\<close>

definition multiple_DOC :: string where
  \<open>multiple_DOC =
     ''\<newline>'' @
     ''This attribute is used by Paddle core framework. Paddle's Op support each input\<newline>'' @
     ''or output could be a list of variable. This attribute is used to show how that\<newline>'' @
     ''list organized.\<newline>'' @
     ''\<newline>'' @
     ''e.g.\<newline>'' @
     ''  input = ["a", "b", "c", "d", "e", "f"]\<newline>'' @
     ''  input_format = [0, 4, 5, 6]\<newline>'' @
     ''\<newline>'' @
     ''means\<newline>'' @
     ''  The number of all input variables this op is six, and they are segmented into\<newline>'' @
     ''  three inputs.\<newline>'' @
     ''\<newline>'' @
     ''  The first input is input[0:4], second is input[4:5], third is input[5:6].\<newline>''\<close>

definition temporary_DOC :: string where
  \<open>temporary_DOC =
     ''The temporary index of output.\<newline>'' @
     ''\<newline>'' @
     ''Not all output of Paddle Op is used by user. For faster computation, each op\<newline>'' @
     ''could output some its internal state to other op, other op could take that\<newline>'' @
     ''output to make compute faster.\<newline>'' @
     ''\<newline>'' @
     ''Add a mark to which output is temporary is helpful for future optimization.\<newline>''\<close>

text \<open>
  \<^verbatim>\<open>SetHasMultiple(in_out, flag)\<close>: the flag is passed by pointer, so the model takes its
  value and returns the new one. No \<^verbatim>\<open>SetDefault\<close> is chained here.
\<close>

definition SetHasMultiple ::
  "string \<Rightarrow> bool \<Rightarrow> OpProtoAndCheckerMaker \<Rightarrow> bool \<times> OpProtoAndCheckerMaker" where
  "SetHasMultiple in_out flag m =
     (if \<not> flag
      then (True, AddAttr INTS (in_out @ ''_format'')
                    (''The multiple index of '' @ in_out @ ''\<newline>'' @ multiple_DOC) True m)
      else (flag, m))"

definition SetHasMultipleInput :: "OpProtoAndCheckerMaker \<Rightarrow> OpProtoAndCheckerMaker" where
  "SetHasMultipleInput m =
     (case SetHasMultiple ''input'' (has_multiple_input m) m of
        (flag, m') \<Rightarrow> m'\<lparr>has_multiple_input := flag\<rparr>)"

definition SetHasMultipleOutput :: "OpProtoAndCheckerMaker \<Rightarrow> OpProtoAndCheckerMaker" where
  "SetHasMultipleOutput m =
     (case SetHasMultiple ''output'' (has_multiple_output m) m of
        (flag, m') \<Rightarrow> m'\<lparr>has_multiple_output := flag\<rparr>)"

definition SetHasTemporaryOutput :: "OpProtoAndCheckerMaker \<Rightarrow> OpProtoAndCheckerMaker" where
  "SetHasTemporaryOutput m =
     (if \<not> has_temporary_output m
      then (let m1 = AddAttr INTS ''temporary_index'' temporary_DOC True m;
                m2 = m1\<lparr>maker_op_checker := SetDefault (AInts []) (maker_op_checker m1)\<rparr>
            in m2\<lparr>has_temporary_output := True\<rparr>)
      else m)"

definition AddInput ::
  "string \<Rightarrow> string \<Rightarrow> bool \<Rightarrow> OpProtoAndCheckerMaker \<Rightarrow> OpProtoAndCheckerMaker" where
  "AddInput name' comment' multiple' m =
     (let m1 = m\<lparr>maker_proto := (maker_proto m)\<lparr>proto_inputs := proto_inputs (maker_proto m) @
                   [\<lparr>var_name = name', var_comment = comment', multiple = multiple',
                     temporary = False\<rparr>]\<rparr>\<rparr>
      in if multiple' then SetHasMultipleInput m1 else m1)"

definition AddInputs :: "string \<Rightarrow> string \<Rightarrow> OpProtoAndCheckerMaker \<Rightarrow> OpProtoAndCheckerMaker" where
  "AddInputs name' comment' m = AddInput name' comment' True m"

definition AddOutput ::
  "string \<Rightarrow> string \<Rightarrow> bool \<Rightarrow> bool \<Rightarrow> OpProtoAndCheckerMaker \<Rightarrow> OpProtoAndCheckerMaker" where
  "AddOutput name' comment' temporary' multiple' m =
     (let m1 = m\<lparr>maker_proto := (maker_proto m)\<lparr>proto_outputs := proto_outputs (maker_proto m) @
                   [\<lparr>var_name = name', var_comment = comment', multiple = multiple',
                     temporary = temporary'\<rparr>]\<rparr>\<rparr>;
          m2 = (if multiple' then SetHasMultipleOutput m1 else m1)
      in if temporary' then SetHasTemporaryOutput m2 else m2)"

definition AddOutputs ::
  "string \<Rightarrow> string \<Rightarrow> bool \<Rightarrow> OpProtoAndCheckerMaker \<Rightarrow> OpProtoAndCheckerMaker" where
  "AddOutputs name' comment' temporary' m = AddOutput name' comment' temporary' True m"

text \<open>
  A concrete maker class is a constructor body: a sequence of calls of the protected
  declaration methods. \<open>DAddAttr\<close> carries the optional chained \<^verbatim>\<open>SetDefault\<close>.
\<close>

datatype decl =
    DAddInput string string bool
  | DAddInputs string string
  | DAddOutput string string bool bool
  | DAddOutputs string string bool
  | DAddAttr AttrType string string bool "Attribute option"
  | DAddComment string

fun run_decl :: "decl \<Rightarrow> OpProtoAndCheckerMaker \<Rightarrow> OpProtoAndCheckerMaker" where
  "run_decl (DAddInput n c mult) m = AddInput n c mult m"
| "run_decl (DAddInputs n c) m = AddInputs n c m"
| "run_decl (DAddOutput n c temp mult) m = AddOutput n c temp mult m"
| "run_decl (DAddOutputs n c temp) m = AddOutputs n c temp m"
| "run_decl (DAddAttr T n c gen dflt) m =
     (let m1 = AddAttr T n c gen m
      in case dflt of
           None \<Rightarrow> m1
         | Some v \<Rightarrow> m1\<lparr>maker_op_checker := SetDefault v (maker_op_checker m1)\<rparr>)"
| "run_decl (DAddComment c) m = AddComment c m"

definition build :: "decl list \<Rightarrow> OpProtoAndCheckerMaker \<Rightarrow> OpProtoAndCheckerMaker" where
  "build ds m = fold run_decl ds m"

text \<open>
  \<^verbatim>\<open>CheckNoDuplicatedInOutAttrs\<close>: the lambda \<^verbatim>\<open>checker\<close> is run over the attribute
  names, then the input names, then the output names, with one set of seen names.
\<close>

fun checker :: "string list \<Rightarrow> string set \<Rightarrow> error + string set" where
  "checker [] names = Inr names"
| "checker (n # ns) names =
     (if n \<in> names then Inl (EnforceNotMet (''['' @ n @ ''] is duplicated''))
      else checker ns (insert n names))"

definition CheckNoDuplicatedInOutAttrs :: "OpProtoAndCheckerMaker \<Rightarrow> error + unit" where
  "CheckNoDuplicatedInOutAttrs m =
     (case checker (map attr_name (proto_attrs (maker_proto m))) {} of
        Inl e \<Rightarrow> Inl e
      | Inr names1 \<Rightarrow>
          (case checker (map var_name (proto_inputs (maker_proto m))) names1 of
             Inl e \<Rightarrow> Inl e
           | Inr names2 \<Rightarrow>
               (case checker (map var_name (proto_outputs (maker_proto m))) names2 of
                  Inl e \<Rightarrow> Inl e
                | Inr names3 \<Rightarrow> Inr ())))"

text \<open>
  \<^verbatim>\<open>Validate\<close> sets \<^verbatim>\<open>validated_\<close> before it checks, so the flag is set also when the
  check throws: the result is the outcome together with the builder.
\<close>

definition Validate :: "OpProtoAndCheckerMaker \<Rightarrow> (error + unit) \<times> OpProtoAndCheckerMaker" where
  "Validate m =
     (let m1 = m\<lparr>validated := True\<rparr> in (CheckNoDuplicatedInOutAttrs m1, m1))"

text \<open>All names a schema declares, in the order \<^verbatim>\<open>CheckNoDuplicatedInOutAttrs\<close> visits them.\<close>

definition declared_names :: "OpProto \<Rightarrow> string list" where
  "declared_names p =
     map attr_name (proto_attrs p) @ map var_name (proto_inputs p) @
     map var_name (proto_outputs p)"

subsection \<open>Operator nodes and the registry\<close>

text \<open>
  Modelled from the spec: \<^verbatim>\<open>operator.h\<close> is not part of the sources at hand. An operator
  node has the five members \<^verbatim>\<open>op_registry.h\<close> assigns: kind name, bound inputs, bound
  outputs, attribute map and the shared name index (\<open>None\<close> is the null pointer). The spec's
  \<^verbatim>\<open>CreateOp\<close> ``constructs a bare node'': \<open>new_OperatorBase\<close> is what a creator
  \<^verbatim>\<open>[] { return new OpType; }\<close> returns. The ``kind-specific post-construction
  initializer'' \<^verbatim>\<open>Init()\<close> is virtual and unknown: it is the one field of a creator, a
  function that may change the node or throw. The gradient suffix is spelled as the spec
  spells it; the auto-temporary sentinel \<^verbatim>\<open>TMP_VAR_NAME()\<close> has no spelling in the spec
  and is a parameter \<open>tmp\<close> of the functions that read it.
\<close>

type_synonym VarIndexMap = "string \<rightharpoonup> cint"
type_synonym VarNameList = "string list"

record OperatorBase =
  op_type :: string
  op_inputs :: VarNameList
  op_outputs :: VarNameList
  op_attrs :: AttributeMap
  in_out_idxs :: "VarIndexMap option"

record OpCreator =
  Init :: "OperatorBase \<Rightarrow> error + OperatorBase"

definition new_OperatorBase :: OperatorBase where
  "new_OperatorBase =
     \<lparr>op_type = [], op_inputs = [], op_outputs = [], op_attrs = Map.empty,
      in_out_idxs = None\<rparr>"

definition GRAD_VAR_SUFFIX :: string where
  "GRAD_VAR_SUFFIX = ''@GRAD''"

text \<open>
  Modelled from the spec: \<^verbatim>\<open>OperatorBase::GetAttr<std::vector<int>>\<close> (\<^verbatim>\<open>operator.h\<close>).
  The attribute value is a tagged union, so reading it as a list of \<^verbatim>\<open>int\<close> succeeds
  exactly when it holds one. \<^verbatim>\<open>GenerateGradAttr\<close> calls it only for a name that is present.
\<close>

definition GetAttr_ints :: "OperatorBase \<Rightarrow> string \<Rightarrow> error + cint list" where
  "GetAttr_ints op name' =
     (case op_attrs op name' of
        None \<Rightarrow> Inl out_of_range
      | Some (AInts v) \<Rightarrow> Inr v
      | Some _ \<Rightarrow> Inl bad_get)"

text \<open>
  The static tables of \<^verbatim>\<open>OpRegistry\<close> and the counter \<^verbatim>\<open>gUniqId\<close> (a function-local
  static of \<^verbatim>\<open>GenerateTempVariableName\<close>): the state of the process.
\<close>

record OpRegistry =
  creators :: "string \<rightharpoonup> OpCreator"
  op_checkers :: "string \<rightharpoonup> OpAttrChecker"
  protos :: "string \<rightharpoonup> OpProto"
  VarIndexMaps :: "string \<rightharpoonup> VarIndexMap"
  grad_creators :: "string \<rightharpoonup> OpCreator"
  gUniqId :: size_t

definition RegisterGradOp :: "OpCreator \<Rightarrow> string \<Rightarrow> OpRegistry \<Rightarrow> OpRegistry" where
  "RegisterGradOp OpType op_type' r = r\<lparr>grad_creators := (grad_creators r)(op_type' \<mapsto> OpType)\<rparr>"

text \<open>\<^verbatim>\<open>protos()[type]\<close>: \<^verbatim>\<open>operator[]\<close> inserts a default-constructed schema for a new key.\<close>

definition protos_subscript :: "OpRegistry \<Rightarrow> string \<Rightarrow> OpProto \<times> OpRegistry" where
  "protos_subscript r type' =
     (case protos r type' of
        None \<Rightarrow> (empty_OpProto, r\<lparr>protos := (protos r)(type' \<mapsto> empty_OpProto)\<rparr>)
      | Some p \<Rightarrow> (p, r))"

subsection \<open>Temporary names\<close>

text \<open>\<^verbatim>\<open>std::to_string\<close> of an unsigned value: its decimal digits, no leading zero.\<close>

fun to_string :: "nat \<Rightarrow> string" where
  "to_string n =
     (if n < 10 then [''0123456789'' ! n]
      else to_string (n div 10) @ [''0123456789'' ! (n mod 10)])"

text \<open>
  One iteration of the loop of \<^verbatim>\<open>GenerateTempVariableName\<close> on the output name
  \<open>outname\<close>, with the counter before and after. \<^verbatim>\<open>fetch_add(1)\<close> returns the old value
  and adds one, wrapping at the width of \<^verbatim>\<open>size_t\<close>.
\<close>

definition rename_output :: "string \<Rightarrow> string \<Rightarrow> string \<Rightarrow> size_t \<Rightarrow> string \<times> size_t" where
  "rename_output tmp type' outname uid =
     (if outname = tmp
      then (outname @ type' @ ''@'' @ to_string (unat uid), uid + 1)
      else (outname, uid))"

fun GenerateTempVariableName_loop ::
  "string \<Rightarrow> string \<Rightarrow> string list \<Rightarrow> size_t \<Rightarrow> string list \<times> size_t" where
  "GenerateTempVariableName_loop tmp type' [] uid = ([], uid)"
| "GenerateTempVariableName_loop tmp type' (outname # rest) uid =
     (case rename_output tmp type' outname uid of
        (outname', uid1) \<Rightarrow>
          (case GenerateTempVariableName_loop tmp type' rest uid1 of
             (rest', uid2) \<Rightarrow> (outname' # rest', uid2)))"

definition GenerateTempVariableName ::
  "string \<Rightarrow> OperatorBase \<Rightarrow> OpRegistry \<Rightarrow> OperatorBase \<times> OpRegistry" where
  "GenerateTempVariableName tmp op r =
     (case GenerateTempVariableName_loop tmp (op_type op) (op_outputs op) (gUniqId r) of
        (outs, uid) \<Rightarrow> (op\<lparr>op_outputs := outs\<rparr>, r\<lparr>gUniqId := uid\<rparr>))"

text \<open>
  Concurrent calls. Each thread runs the loop of \<^verbatim>\<open>GenerateTempVariableName\<close> on a node
  of its own: \<open>th_pos\<close> is the position of the loop in \<open>th_outputs\<close>. The only shared
  object is the atomic counter, and an iteration touches it once, by \<^verbatim>\<open>fetch_add\<close>; so a
  concurrent execution is an interleaving of iterations, given by a schedule: the list of
  the thread numbers in the order their iterations take effect. \<open>temp_names\<close> is a ghost
  log of the names made so far.
\<close>

record thread =
  th_type :: string
  th_outputs :: "string list"
  th_pos :: nat

record process =
  counter :: size_t
  threads :: "thread list"
  temp_names :: "string list"

definition thread_step :: "string \<Rightarrow> nat \<Rightarrow> process \<Rightarrow> process" where
  "thread_step tmp i p =
     (if i < length (threads p) \<and> th_pos (threads p ! i) < length (th_outputs (threads p ! i))
      then (let t = threads p ! i;
                outname = th_outputs t ! th_pos t
            in case rename_output tmp (th_type t) outname (counter p) of
                 (outname', uid) \<Rightarrow>
                   \<lparr>counter = uid,
                    threads = (threads p)[i := t\<lparr>th_outputs := (th_outputs t)[th_pos t := outname'],
                                                th_pos := Suc (th_pos t)\<rparr>],
                    temp_names = temp_names p @ (if outname = tmp then [outname'] else [])\<rparr>)
      else p)"

definition run_schedule :: "string \<Rightarrow> nat list \<Rightarrow> process \<Rightarrow> process" where
  "run_schedule tmp sched p = fold (thread_step tmp) sched p"

subsection \<open>\<^verbatim>\<open>CreateOp\<close>\<close>

text \<open>
  \<^verbatim>\<open>OpAttrChecker::Check\<close> is defined in \<^verbatim>\<open>attr_checker.h\<close>; it takes the attribute map
  by reference and may change it or throw. It is the parameter \<open>Check\<close>.
\<close>

definition CreateOp ::
  "(OpAttrChecker \<Rightarrow> AttributeMap \<Rightarrow> error + AttributeMap) \<Rightarrow> string \<Rightarrow> OpRegistry \<Rightarrow>
   string \<Rightarrow> VarNameList \<Rightarrow> VarNameList \<Rightarrow> AttributeMap \<Rightarrow> (error + OperatorBase) \<times> OpRegistry" where
  "CreateOp Check tmp r type' inputs outputs attrs =
     (case creators r type' of
        None \<Rightarrow> (Inl (EnforceNotMet (''Operator '' @ type' @ '' cannot be found.'')), r)
      | Some op_create \<Rightarrow>
          (let op = new_OperatorBase\<lparr>op_type := type', op_inputs := inputs,
                                     op_outputs := outputs, op_attrs := attrs\<rparr>
           in case op_checkers r type' of
                None \<Rightarrow> (Inl out_of_range, r)
              | Some op_checker \<Rightarrow>
                  (case Check op_checker (op_attrs op) of
                     Inl e \<Rightarrow> (Inl e, r)
                   | Inr attrs' \<Rightarrow>
                       (case GenerateTempVariableName tmp (op\<lparr>op_attrs := attrs'\<rparr>) r of
                          (op1, r1) \<Rightarrow>
                            (let op2 = (case VarIndexMaps r1 type' of
                                          None \<Rightarrow> op1
                                        | Some var_index \<Rightarrow> op1\<lparr>in_out_idxs := Some var_index\<rparr>)
                             in (Init op_create op2, r1))))))"

fun decode_attrs :: "AttrDesc list \<Rightarrow> AttributeMap \<Rightarrow> error + AttributeMap" where
  "decode_attrs [] attrs = Inr attrs"
| "decode_attrs (attr # rest) attrs =
     (case GetAttrValue attr of
        Inl e \<Rightarrow> Inl e
      | Inr v \<Rightarrow> decode_attrs rest (attrs(attr_desc_name attr \<mapsto> v)))"

definition CreateOp_OpDesc ::
  "(OpAttrChecker \<Rightarrow> AttributeMap \<Rightarrow> error + AttributeMap) \<Rightarrow> string \<Rightarrow> OpRegistry \<Rightarrow>
   OpDesc \<Rightarrow> (error + OperatorBase) \<times> OpRegistry" where
  "CreateOp_OpDesc Check tmp r op_desc =
     (let inputs = op_desc_inputs op_desc;
          outputs = op_desc_outputs op_desc
      in case decode_attrs (op_desc_attrs op_desc) Map.empty of
           Inl e \<Rightarrow> (Inl e, r)
         | Inr attrs \<Rightarrow> CreateOp Check tmp r (op_desc_type op_desc) inputs outputs attrs)"

text \<open>
  A process that calls \<^verbatim>\<open>CreateOp\<close> again and again, with the arguments of the list one
  after the other; the result collects what the calls returned.
\<close>

fun CreateOp_calls ::
  "(OpAttrChecker \<Rightarrow> AttributeMap \<Rightarrow> error + AttributeMap) \<Rightarrow> string \<Rightarrow>
   (string \<times> VarNameList \<times> VarNameList \<times> AttributeMap) list \<Rightarrow> OpRegistry \<Rightarrow>
   (error + OperatorBase) list \<times> OpRegistry" where
  "CreateOp_calls Check tmp [] r = ([], r)"
| "CreateOp_calls Check tmp ((type', inputs, outputs, attrs) # rest) r =
     (case CreateOp Check tmp r type' inputs outputs attrs of
        (res, r1) \<Rightarrow>
          (case CreateOp_calls Check tmp rest r1 of
             (ress, r2) \<Rightarrow> (res # ress, r2)))"

subsection \<open>\<^verbatim>\<open>CreateGradOp\<close>\<close>

definition AssembleGradInOut :: "OperatorBase \<Rightarrow> OperatorBase \<Rightarrow> OperatorBase" where
  "AssembleGradInOut op grad_op =
     grad_op\<lparr>op_inputs := op_inputs grad_op @ op_inputs op @ op_outputs op @
                            map (\<lambda>name'. name' @ GRAD_VAR_SUFFIX) (op_outputs op),
             op_outputs := op_outputs grad_op @
                             map (\<lambda>name'. name' @ GRAD_VAR_SUFFIX) (op_inputs op)\<rparr>"

text \<open>The loop \<^verbatim>\<open>for (var : vars) (*grad_varmap)[name] = idx++;\<close> over a list of names.\<close>

fun assign_offsets :: "string list \<Rightarrow> cint \<Rightarrow> VarIndexMap \<Rightarrow> VarIndexMap \<times> cint" where
  "assign_offsets [] idx varmap = (varmap, idx)"
| "assign_offsets (name' # rest) idx varmap =
     assign_offsets rest (idx + 1) (varmap(name' \<mapsto> idx))"

text \<open>
  The map that the four loops of \<^verbatim>\<open>GenerateGradArgOffset\<close> fill: input names, output
  names and suffixed output names with one running \<^verbatim>\<open>idx\<close>, then, \<^verbatim>\<open>idx\<close> set back
  to 0, the suffixed input names.
\<close>

definition grad_varmap_of :: "OpProto \<Rightarrow> VarIndexMap" where
  "grad_varmap_of op_proto =
     (case assign_offsets (map var_name (proto_inputs op_proto)) 0 Map.empty of
        (m1, idx1) \<Rightarrow>
     (case assign_offsets (map var_name (proto_outputs op_proto)) idx1 m1 of
        (m2, idx2) \<Rightarrow>
     (case assign_offsets
             (map (\<lambda>var. var_name var @ GRAD_VAR_SUFFIX) (proto_outputs op_proto)) idx2 m2 of
        (m3, idx3) \<Rightarrow>
     (case assign_offsets
             (map (\<lambda>var. var_name var @ GRAD_VAR_SUFFIX) (proto_inputs op_proto)) 0 m3 of
        (m4, idx4) \<Rightarrow> m4))))"

definition GenerateGradArgOffset ::
  "OpRegistry \<Rightarrow> OperatorBase \<Rightarrow> OperatorBase \<Rightarrow> OperatorBase \<times> OpRegistry" where
  "GenerateGradArgOffset r op grad_op =
     (case protos_subscript r (op_type op) of
        (op_proto, r1) \<Rightarrow> (grad_op\<lparr>in_out_idxs := Some (grad_varmap_of op_proto)\<rparr>, r1))"

text \<open>\<^verbatim>\<open>std::iota(first, last, value)\<close>: every element is overwritten, counting up.\<close>

fun iota :: "cint list \<Rightarrow> cint \<Rightarrow> cint list" where
  "iota [] v = []"
| "iota (x # xs) v = v # iota xs (v + 1)"

text \<open>
  \<^verbatim>\<open>GenerateGradAttr\<close>. The statement
  \<^verbatim>\<open>has_in_format ? old_in_format = GetAttr(..) : old_in_format = vector(n), std::iota(..);\<close>
  parses as \<^verbatim>\<open>(c ? a : b), std::iota(..)\<close>: the third operand of \<^verbatim>\<open>?:\<close> is an
  assignment-expression and ends before the comma, the operator of lowest precedence. So
  \<^verbatim>\<open>std::iota\<close> runs in both cases, also after the array was fetched from the attribute,
  and overwrites it with \<open>0, 1, .., k-1\<close>. The same holds for \<^verbatim>\<open>old_out_format\<close>.
  \<open>in_assigned\<close> and \<open>out_assigned\<close> are the arrays as the conditional leaves them.
\<close>

definition GenerateGradAttr ::
  "OpRegistry \<Rightarrow> OperatorBase \<Rightarrow> OperatorBase \<Rightarrow> (error + OperatorBase) \<times> OpRegistry" where
  "GenerateGradAttr r op grad_op =
     (case protos_subscript r (op_type op) of
        (op_proto, r1) \<Rightarrow>
     (let grad_op1 = grad_op\<lparr>op_attrs := op_attrs op\<rparr>;
          grad_op2 = grad_op1\<lparr>op_attrs := (op_attrs grad_op1)(''input_format'' := None)\<rparr>;
          grad_op3 = grad_op2\<lparr>op_attrs := (op_attrs grad_op2)(''output_format'' := None)\<rparr>;
          has_in_format = (op_attrs op ''input_format'' \<noteq> None);
          has_out_format = (op_attrs op ''output_format'' \<noteq> None)
      in if has_in_format \<or> has_out_format
         then
           (case (if has_in_format then GetAttr_ints op ''input_format''
                  else Inr (replicate (length (proto_inputs op_proto)) 0)) of
              Inl e \<Rightarrow> (Inl e, r1)
            | Inr in_assigned \<Rightarrow>
           (case (if has_out_format then GetAttr_ints op ''output_format''
                  else Inr (replicate (length (proto_outputs op_proto)) 0)) of
              Inl e \<Rightarrow> (Inl e, r1)
            | Inr out_assigned \<Rightarrow>
           (let old_in_format = iota in_assigned 0;
                old_out_format = iota out_assigned 0;
                base0 = 0;
                in_format1 = map (\<lambda>idx. idx + base0) old_in_format;
                base1 = base0 + of_nat (length (op_inputs op));
                in_format2 = in_format1 @ map (\<lambda>idx. idx + base1) old_out_format;
                base2 = base1 + of_nat (length (op_outputs op));
                in_format3 = in_format2 @ map (\<lambda>idx. idx + base2) old_in_format;
                grad_op4 = grad_op3\<lparr>op_attrs :=
                             (op_attrs grad_op3)(''input_format'' \<mapsto> AInts in_format3)\<rparr>
            in if has_in_format
               then (Inr (grad_op4\<lparr>op_attrs :=
                            (op_attrs grad_op4)(''output_format'' \<mapsto> AInts old_in_format)\<rparr>), r1)
               else (Inr grad_op4, r1))))
         else (Inr grad_op3, r1)))"

definition CreateGradOp :: "OpRegistry \<Rightarrow> OperatorBase \<Rightarrow> (error + OperatorBase) \<times> OpRegistry" where
  "CreateGradOp r op =
     (case grad_creators r (op_type op) of
        None \<Rightarrow> (Inl out_of_range, r)
      | Some grad_create \<Rightarrow>
          (let grad_op = new_OperatorBase\<lparr>op_type := op_type op\<rparr>;
               grad_op1 = AssembleGradInOut op grad_op
           in case GenerateGradArgOffset r op grad_op1 of
                (grad_op2, r1) \<Rightarrow>
                  (case GenerateGradAttr r1 op grad_op2 of
                     (Inl e, r2) \<Rightarrow> (Inl e, r2)
                   | (Inr grad_op3, r2) \<Rightarrow> (Init grad_create grad_op3, r2))))"

subsection \<open>\<^verbatim>\<open>RegisterOp\<close>\<close>

text \<open>
  \<^verbatim>\<open>RegisterOp<OpType, ProtoMakerType>(op_type)\<close>. The maker's constructor body is the list
  of declarations \<open>ProtoMakerType\<close>; it works on the checker and the schema that
  \<^verbatim>\<open>op_checkers()[op_type]\<close> and \<^verbatim>\<open>protos()[op_type]\<close> refer to, which are new ones
  unless the name was registered before. \<^verbatim>\<open>IsInitialized\<close> and
  \<^verbatim>\<open>InitializationErrorString\<close> belong to the protocol-buffer library and are parameters.
  When \<^verbatim>\<open>Validate\<close> or the initialization check throws, the tables keep what was written
  until then.
\<close>

definition RegisterOp ::
  "(OpProto \<Rightarrow> bool) \<Rightarrow> (OpProto \<Rightarrow> string) \<Rightarrow> OpCreator \<Rightarrow> decl list \<Rightarrow> string \<Rightarrow>
   OpRegistry \<Rightarrow> (error + unit) \<times> OpRegistry" where
  "RegisterOp IsInitialized InitializationErrorString OpType ProtoMakerType op_type' r =
     (let r1 = r\<lparr>creators := (creators r)(op_type' \<mapsto> OpType)\<rparr>;
          op_checker = (case op_checkers r1 op_type' of None \<Rightarrow> [] | Some c \<Rightarrow> c);
          op_proto = (case protos r1 op_type' of None \<Rightarrow> empty_OpProto | Some p \<Rightarrow> p);
          maker = build ProtoMakerType (new_OpProtoAndCheckerMaker op_proto op_checker)
      in case Validate maker of
           (Inl e, maker') \<Rightarrow>
             (Inl e, r1\<lparr>op_checkers := (op_checkers r1)(op_type' \<mapsto> maker_op_checker maker'),
                        protos := (protos r1)(op_type' \<mapsto> maker_proto maker')\<rparr>)
         | (Inr u, maker') \<Rightarrow>
             (let op_proto' = (maker_proto maker')\<lparr>proto_type := op_type'\<rparr>;
                  r2 = r1\<lparr>op_checkers := (op_checkers r1)(op_type' \<mapsto> maker_op_checker maker'),
                          protos := (protos r1)(op_type' \<mapsto> op_proto')\<rparr>
              in if \<not> IsInitialized op_proto'
                 then (Inl (EnforceNotMet (''Fail to initialize '' @ op_type' @
                              '''s OpProto, because '' @ InitializationErrorString op_proto' @
                              '' is not initialized'')), r2)
                 else (case assign_offsets (map var_name (proto_inputs op_proto')) 0 Map.empty of
                         (varmap1, idx1) \<Rightarrow>
                       (case assign_offsets (map var_name (proto_outputs op_proto')) 0 varmap1 of
                         (varmap2, idx2) \<Rightarrow>
                           (Inr (), r2\<lparr>VarIndexMaps := (VarIndexMaps r2)(op_type' \<mapsto> varmap2)\<rparr>)))))"

subsection \<open>The execution list \<^verbatim>\<open>PlainNet\<close>\<close>

text \<open>
  The element type of \<^verbatim>\<open>ops_\<close> and its methods are declared outside \<^verbatim>\<open>net.cc\<close>. A node
  is a value of a type \<open>'op\<close>; what \<^verbatim>\<open>op.InferShape()\<close> and \<^verbatim>\<open>op.Run(ctx)\<close> do is
  a parameter, a function on the state \<open>'w\<close> of everything a node may touch (the variable
  store, and the node's own state), which may throw. Each pass returns its outcome, the
  net, and a ghost log of the calls it made, in order. The parameter \<^verbatim>\<open>scope\<close> of both
  methods is not used by their bodies.
\<close>

record 'op PlainNet =
  net_ops :: "'op list"

fun InferShape_loop ::
  "('op \<Rightarrow> 'w \<Rightarrow> error + 'w) \<Rightarrow> 'op list \<Rightarrow> 'w \<Rightarrow> 'op list \<Rightarrow> (error + 'w) \<times> 'op list" where
  "InferShape_loop op_InferShape [] w calls = (Inr w, calls)"
| "InferShape_loop op_InferShape (op # rest) w calls =
     (case op_InferShape op w of
        Inl e \<Rightarrow> (Inl e, calls @ [op])
      | Inr w' \<Rightarrow> InferShape_loop op_InferShape rest w' (calls @ [op]))"

definition PlainNet_InferShape ::
  "('op \<Rightarrow> 'w \<Rightarrow> error + 'w) \<Rightarrow> 'op PlainNet \<Rightarrow> 'scope \<Rightarrow> 'w \<Rightarrow>
   (error + 'w) \<times> 'op PlainNet \<times> 'op list" where
  "PlainNet_InferShape op_InferShape net scope w =
     (case InferShape_loop op_InferShape (net_ops net) w [] of
        (res, calls) \<Rightarrow> (res, net, calls))"

fun Run_loop ::
  "('op \<Rightarrow> 'ctx \<Rightarrow> 'w \<Rightarrow> error + 'w) \<Rightarrow> 'op list \<Rightarrow> 'ctx \<Rightarrow> 'w \<Rightarrow> ('op \<times> 'ctx) list \<Rightarrow>
   (error + 'w) \<times> ('op \<times> 'ctx) list" where
  "Run_loop op_Run [] ctx w calls = (Inr w, calls)"
| "Run_loop op_Run (op # rest) ctx w calls =
     (case op_Run op ctx w of
        Inl e \<Rightarrow> (Inl e, calls @ [(op, ctx)])
      | Inr w' \<Rightarrow> Run_loop op_Run rest ctx w' (calls @ [(op, ctx)]))"

definition PlainNet_Run ::
  "('op \<Rightarrow> 'ctx \<Rightarrow> 'w \<Rightarrow> error + 'w) \<Rightarrow> 'op PlainNet \<Rightarrow> 'scope \<Rightarrow> 'ctx \<Rightarrow> 'w \<Rightarrow>
   (error + 'w) \<times> 'op PlainNet \<times> ('op \<times> 'ctx) list" where
  "PlainNet_Run op_Run net scope ctx w =
     (case Run_loop op_Run (net_ops net) ctx w [] of
        (res, calls) \<Rightarrow> (res, net, calls))"

section \<open>Notions used in the statements\<close>

subsection \<open>Initializers that leave the node alone\<close>

text \<open>
  \<^verbatim>\<open>Init()\<close> is the last step of \<^verbatim>\<open>CreateOp\<close> and \<^verbatim>\<open>CreateGradOp\<close>. What they
  return is what \<^verbatim>\<open>Init()\<close> leaves of the node they built; \<open>Init_keeps c\<close> says that the
  initializer of the creator \<open>c\<close>, when it returns, has not changed the five members.
\<close>

definition Init_keeps :: "OpCreator \<Rightarrow> bool" where
  "Init_keeps c \<longleftrightarrow> (\<forall>n n'. Init c n = Inr n' \<longrightarrow> n' = n)"

subsection \<open>The offsets of a gradient node's name index, as the spec states them\<close>

text \<open>
  For a schema with \<open>p\<close> input slots and \<open>q\<close> output slots: the slot names at the offsets
  \<open>0..p-1\<close> and \<open>p..p+q-1\<close> (\<open>plain_offsets\<close>), the suffixed output names at
  \<open>p+q..p+2q-1\<close> and the suffixed input names at \<open>0..p-1\<close> again (\<open>suffixed_offsets\<close>).
  An offset is a C++ \<^verbatim>\<open>int\<close>, so the offset \<open>i\<close> is the word \<open>of_nat i\<close>.
  \<open>suffix_free\<close>: no slot name is a slot name followed by the gradient suffix.
\<close>

definition input_names :: "OpProto \<Rightarrow> string list" where
  "input_names p = map var_name (proto_inputs p)"

definition output_names :: "OpProto \<Rightarrow> string list" where
  "output_names p = map var_name (proto_outputs p)"

definition plain_offsets :: "OpProto \<Rightarrow> VarIndexMap \<Rightarrow> bool" where
  "plain_offsets p m \<longleftrightarrow>
     (\<forall>i < length (input_names p). m (input_names p ! i) = Some (of_nat i)) \<and>
     (\<forall>j < length (output_names p).
        m (output_names p ! j) = Some (of_nat (length (input_names p) + j)))"

definition suffixed_offsets :: "OpProto \<Rightarrow> VarIndexMap \<Rightarrow> bool" where
  "suffixed_offsets p m \<longleftrightarrow>
     (\<forall>j < length (output_names p).
        m (output_names p ! j @ GRAD_VAR_SUFFIX) =
          Some (of_nat (length (input_names p) + length (output_names p) + j))) \<and>
     (\<forall>i < length (input_names p). m (input_names p ! i @ GRAD_VAR_SUFFIX) = Some (of_nat i))"

definition continuous_offsets :: "OpProto \<Rightarrow> VarIndexMap \<Rightarrow> bool" where
  "continuous_offsets p m \<longleftrightarrow> plain_offsets p m \<and> suffixed_offsets p m"

definition suffix_free :: "OpProto \<Rightarrow> bool" where
  "suffix_free p \<longleftrightarrow>
     (\<forall>x \<in> set (input_names p @ output_names p).
        \<forall>y \<in> set (input_names p @ output_names p). x \<noteq> y @ GRAD_VAR_SUFFIX)"

subsection \<open>Format arrays\<close>

text \<open>
  The offsets a format attribute stands for: the array it holds, or \<open>0, 1, .., n-1\<close> for
  the \<open>n\<close> declared slots when the attribute is absent, which is what \<^verbatim>\<open>GenerateGradAttr\<close>
  takes then. \<open>counts_up a\<close>: the attribute \<open>a\<close> is absent, or its array is
  \<open>0, 1, .., k-1\<close> already, so that \<^verbatim>\<open>std::iota\<close> writes back what the array held.
  \<open>iota_length\<close> is the length of the array that \<^verbatim>\<open>std::iota\<close> fills.
  \<open>three_input_copies\<close> is the layout as the spec words it: the input offsets, the input
  offsets shifted by the input count, the input offsets shifted by input and output count.
\<close>

definition default_offsets :: "nat \<Rightarrow> cint list" where
  "default_offsets n = map of_nat [0..<n]"

definition forward_offsets :: "Attribute option \<Rightarrow> nat \<Rightarrow> cint list" where
  "forward_offsets a n = (case a of Some (AInts v) \<Rightarrow> v | _ \<Rightarrow> default_offsets n)"

definition counts_up :: "Attribute option \<Rightarrow> bool" where
  "counts_up a \<longleftrightarrow>
     (case a of
        None \<Rightarrow> True
      | Some (AInts v) \<Rightarrow> v = default_offsets (length v)
      | Some _ \<Rightarrow> False)"

definition shifted :: "cint \<Rightarrow> cint list \<Rightarrow> cint list" where
  "shifted n v = map (\<lambda>idx. idx + n) v"

definition three_input_copies :: "OperatorBase \<Rightarrow> cint list \<Rightarrow> cint list" where
  "three_input_copies op v =
     v @ shifted (of_nat (length (op_inputs op))) v @
     shifted (of_nat (length (op_inputs op)) + of_nat (length (op_outputs op))) v"

definition iota_length :: "Attribute option \<Rightarrow> nat \<Rightarrow> nat" where
  "iota_length a n = (case a of Some (AInts v) \<Rightarrow> length v | _ \<Rightarrow> n)"

subsection \<open>Bookkeeping attributes of a schema\<close>

text \<open>
  \<open>fresh_build ds\<close> is the maker after a constructor body \<open>ds\<close> ran on a new schema.
  \<open>attrs_named\<close> and \<open>checkers_named\<close> select what the schema and the checker hold
  under one name; \<open>declares_attr\<close> and the three predicates after it say what a
  declaration asks for. \<open>format_attr\<close> and \<open>temporary_index_attr\<close> are the attributes
  that \<^verbatim>\<open>SetHasMultiple\<close> and \<^verbatim>\<open>SetHasTemporaryOutput\<close> add.
\<close>

definition fresh_build :: "decl list \<Rightarrow> OpProtoAndCheckerMaker" where
  "fresh_build ds = build ds (new_OpProtoAndCheckerMaker empty_OpProto [])"

fun declares_attr :: "string \<Rightarrow> decl \<Rightarrow> bool" where
  "declares_attr n (DAddAttr T n' c gen dflt) = (n' = n)"
| "declares_attr n _ = False"

fun declares_multiple_input :: "decl \<Rightarrow> bool" where
  "declares_multiple_input (DAddInput n c mult) = mult"
| "declares_multiple_input (DAddInputs n c) = True"
| "declares_multiple_input _ = False"

fun declares_multiple_output :: "decl \<Rightarrow> bool" where
  "declares_multiple_output (DAddOutput n c temp mult) = mult"
| "declares_multiple_output (DAddOutputs n c temp) = True"
| "declares_multiple_output _ = False"

fun declares_temporary :: "decl \<Rightarrow> bool" where
  "declares_temporary (DAddOutput n c temp mult) = temp"
| "declares_temporary (DAddOutputs n c temp) = temp"
| "declares_temporary _ = False"

definition attrs_named :: "string \<Rightarrow> OpProtoAndCheckerMaker \<Rightarrow> AttrProto list" where
  "attrs_named n m = filter (\<lambda>a. attr_name a = n) (proto_attrs (maker_proto m))"

definition checkers_named :: "string \<Rightarrow> OpProtoAndCheckerMaker \<Rightarrow> TypedAttrChecker list" where
  "checkers_named n m = filter (\<lambda>c. checker_attr_name c = n) (maker_op_checker m)"

definition format_attr :: "string \<Rightarrow> AttrProto" where
  "format_attr in_out =
     \<lparr>attr_name = in_out @ ''_format'',
      attr_comment = ''The multiple index of '' @ in_out @ ''\<newline>'' @ multiple_DOC,
      attr_type = INTS, generated = True\<rparr>"

definition temporary_index_attr :: AttrProto where
  "temporary_index_attr =
     \<lparr>attr_name = ''temporary_index'', attr_comment = temporary_DOC,
      attr_type = INTS, generated = True\<rparr>"

definition bookkeeping_checker :: "string \<Rightarrow> Attribute option \<Rightarrow> TypedAttrChecker" where
  "bookkeeping_checker n dflt =
     \<lparr>checker_attr_name = n, checker_attr_type = INTS, default_value = dflt\<rparr>"

subsection \<open>Generated names\<close>

text \<open>
  The name \<^verbatim>\<open>GenerateTempVariableName\<close> makes from the sentinel, the kind name and a value
  of the counter. \<open>numbered tmp c0 p\<close> is the invariant of a process that started with
  the counter at \<open>c0\<close> and an empty log: the \<open>i\<close>-th name of the log was made from the
  counter value \<open>c0 + i\<close>, and the counter stands at \<open>c0\<close> plus the number of names made.
\<close>

definition temp_name :: "string \<Rightarrow> string \<Rightarrow> size_t \<Rightarrow> string" where
  "temp_name tmp type' uid = tmp @ type' @ ''@'' @ to_string (unat uid)"

definition numbered :: "string \<Rightarrow> size_t \<Rightarrow> process \<Rightarrow> bool" where
  "numbered tmp c0 p \<longleftrightarrow>
     counter p = c0 + of_nat (length (temp_names p)) \<and>
     (\<forall>i < length (temp_names p). \<exists>ty. temp_names p ! i = temp_name tmp ty (c0 + of_nat i))"

subsection \<open>Node operations applied in list order\<close>

text \<open>
  What a pass over the list has to compute, written without the loop and without the
  record of the calls: the operation of the first node on the state, then that of the
  second on the state the first left, and so on; the first exception ends it and is the
  result.
\<close>

fun apply_all :: "('op \<Rightarrow> 'w \<Rightarrow> error + 'w) \<Rightarrow> 'op list \<Rightarrow> 'w \<Rightarrow> error + 'w" where
  "apply_all f [] w = Inr w"
| "apply_all f (op # rest) w =
     (case f op w of
        Inl e \<Rightarrow> Inl e
      | Inr w' \<Rightarrow> apply_all f rest w')"

section \<open>Example inputs\<close>

text \<open>Two makers: one with three distinct names, one that declares \<open>X\<close> twice.\<close>

definition maker_ok :: OpProtoAndCheckerMaker where
  "maker_ok = build [DAddInput ''X'' ''in'' False, DAddOutput ''Out'' ''out'' False False,
                     DAddAttr FLOAT ''scale'' ''factor'' False None]
                (new_OpProtoAndCheckerMaker empty_OpProto [])"

definition maker_dup :: OpProtoAndCheckerMaker where
  "maker_dup = build [DAddInput ''X'' ''in'' False, DAddOutput ''Out'' ''out'' False False,
                      DAddAttr FLOAT ''X'' ''factor'' False None]
                 (new_OpProtoAndCheckerMaker empty_OpProto [])"

text \<open>
  A creator whose \<^verbatim>\<open>Init()\<close> does nothing; the kind \<open>ab_c\<close> with the input slots
  \<open>a\<close>, \<open>b\<close> and the output slot \<open>c\<close>, and a node of it bound to variables of the
  same names.
\<close>

definition noop_creator :: OpCreator where
  "noop_creator = \<lparr>Init = Inr\<rparr>"

definition proto_ab_c :: OpProto where
  "proto_ab_c =
     \<lparr>proto_type = ''ab_c'',
      proto_inputs = [\<lparr>var_name = ''a'', var_comment = ''first'', multiple = False, temporary = False\<rparr>,
                      \<lparr>var_name = ''b'', var_comment = ''second'', multiple = False, temporary = False\<rparr>],
      proto_outputs = [\<lparr>var_name = ''c'', var_comment = ''result'', multiple = False, temporary = False\<rparr>],
      proto_attrs = [],
      proto_comment = ''example''\<rparr>"

definition registry_ex :: OpRegistry where
  "registry_ex =
     \<lparr>creators = [''ab_c'' \<mapsto> noop_creator],
      op_checkers = [''ab_c'' \<mapsto> []],
      protos = [''ab_c'' \<mapsto> proto_ab_c],
      VarIndexMaps = [''ab_c'' \<mapsto> [''a'' \<mapsto> 0, ''b'' \<mapsto> 1, ''c'' \<mapsto> 0]],
      grad_creators = [''ab_c'' \<mapsto> noop_creator],
      gUniqId = 0\<rparr>"

definition op_ab_c :: OperatorBase where
  "op_ab_c = \<lparr>op_type = ''ab_c'', op_inputs = [''a'', ''b''], op_outputs = [''c''],
              op_attrs = Map.empty, in_out_idxs = Some [''a'' \<mapsto> 0, ''b'' \<mapsto> 1, ''c'' \<mapsto> 0]\<rparr>"

text \<open>
  A sample \<^verbatim>\<open>Check\<close>: every declared attribute must be bound or have a default, which is
  then filled in. The kind \<open>scale\<close> requires a \<open>factor\<close>; it has no gradient, no schema
  and no name index.
\<close>

fun Check_required :: "OpAttrChecker \<Rightarrow> AttributeMap \<Rightarrow> error + AttributeMap" where
  "Check_required [] attrs = Inr attrs"
| "Check_required (c # cs) attrs =
     (case attrs (checker_attr_name c) of
        Some v \<Rightarrow> Check_required cs attrs
      | None \<Rightarrow>
          (case default_value c of
             None \<Rightarrow> Inl (EnforceNotMet (''Attribute '' @ checker_attr_name c @ '' is required!''))
           | Some v \<Rightarrow> Check_required cs (attrs(checker_attr_name c \<mapsto> v))))"

definition registry_scale :: OpRegistry where
  "registry_scale =
     \<lparr>creators = [''scale'' \<mapsto> noop_creator],
      op_checkers = [''scale'' \<mapsto> [\<lparr>checker_attr_name = ''factor'', checker_attr_type = FLOAT,
                                      default_value = None\<rparr>]],
      protos = Map.empty,
      VarIndexMaps = Map.empty,
      grad_creators = Map.empty,
      gUniqId = 7\<rparr>"

definition attr_desc_bad :: AttrDesc where
  "attr_desc_bad =
     \<lparr>attr_desc_name = ''factor'', attr_desc_type = UNKNOWN_TYPE, attr_desc_i = 0,
      attr_desc_f = 0, attr_desc_s = [], attr_desc_ints = [], attr_desc_floats = [],
      attr_desc_strings = []\<rparr>"

definition op_desc_bad :: OpDesc where
  "op_desc_bad =
     \<lparr>op_desc_type = ''scale'', op_desc_inputs = [''x''], op_desc_outputs = [''y''],
      op_desc_attrs = [attr_desc_bad]\<rparr>"

text \<open>
  A net of three nodes. The nodes' operations append a line to a journal, which is the
  state; the device context is a number.
\<close>

definition net_xyz :: "string PlainNet" where
  "net_xyz = \<lparr>net_ops = [''mul'', ''add'', ''sigmoid'']\<rparr>"

definition record_InferShape :: "string \<Rightarrow> string list \<Rightarrow> error + string list" where
  "record_InferShape op w = Inr (w @ [''shape of '' @ op])"

definition record_Run :: "string \<Rightarrow> nat \<Rightarrow> string list \<Rightarrow> error + string list" where
  "record_Run op ctx w = Inr (w @ [''run '' @ op])"

text \<open>
  Node operations that throw: \<open>strict_InferShape\<close> at the node \<open>add\<close>,
  \<open>strict_Run\<close> at the node \<open>sigmoid\<close>.
\<close>

definition strict_InferShape :: "string \<Rightarrow> string list \<Rightarrow> error + string list" where
  "strict_InferShape op w =
     (if op = ''add'' then Inl (EnforceNotMet ''dimensions differ'')
      else Inr (w @ [''shape of '' @ op]))"

definition strict_Run :: "string \<Rightarrow> nat \<Rightarrow> string list \<Rightarrow> error + string list" where
  "strict_Run op ctx w =
     (if op = ''sigmoid'' then Inl (EnforceNotMet ''no kernel'')
      else Inr (w @ [''run '' @ op]))"

text \<open>
  The kind \<open>mul_grad\<close>, with the slots of a gradient operator: the inputs \<open>X\<close>,
  \<open>Out\<close> and \<open>Out@GRAD\<close>, the output \<open>X@GRAD\<close>. Its four names are distinct.
\<close>

definition proto_mul_grad :: OpProto where
  "proto_mul_grad =
     \<lparr>proto_type = ''mul_grad'',
      proto_inputs = [\<lparr>var_name = ''X'', var_comment = ''input'', multiple = False, temporary = False\<rparr>,
                      \<lparr>var_name = ''Out'', var_comment = ''output'', multiple = False, temporary = False\<rparr>,
                      \<lparr>var_name = ''Out@GRAD'', var_comment = ''gradient of the output'',
                       multiple = False, temporary = False\<rparr>],
      proto_outputs = [\<lparr>var_name = ''X@GRAD'', var_comment = ''gradient of the input'',
                        multiple = False, temporary = False\<rparr>],
      proto_attrs = [],
      proto_comment = ''example''\<rparr>"

definition registry_mul_grad :: OpRegistry where
  "registry_mul_grad =
     \<lparr>creators = [''mul_grad'' \<mapsto> noop_creator],
      op_checkers = [''mul_grad'' \<mapsto> []],
      protos = [''mul_grad'' \<mapsto> proto_mul_grad],
      VarIndexMaps = [''mul_grad'' \<mapsto> [''X'' \<mapsto> 0, ''Out'' \<mapsto> 1, ''Out@GRAD'' \<mapsto> 2, ''X@GRAD'' \<mapsto> 0]],
      grad_creators = [''mul_grad'' \<mapsto> noop_creator],
      gUniqId = 0\<rparr>"

definition op_mul_grad :: OperatorBase where
  "op_mul_grad =
     \<lparr>op_type = ''mul_grad'', op_inputs = [''x'', ''y'', ''y@GRAD''], op_outputs = [''x@GRAD''],
      op_attrs = Map.empty,
      in_out_idxs = Some [''X'' \<mapsto> 0, ''Out'' \<mapsto> 1, ''Out@GRAD'' \<mapsto> 2, ''X@GRAD'' \<mapsto> 0]\<rparr>"

text \<open>
  The kind \<open>grouped\<close>: two multiple inputs \<open>X\<close>, \<open>Y\<close> and one output. One node
  binds groups of two and three variables (format \<open>[0, 2, 5]\<close>), another groups of one
  and one (format \<open>[0, 1, 2]\<close>).
\<close>

definition proto_grouped :: OpProto where
  "proto_grouped =
     \<lparr>proto_type = ''grouped'',
      proto_inputs = [\<lparr>var_name = ''X'', var_comment = ''first group'', multiple = True, temporary = False\<rparr>,
                      \<lparr>var_name = ''Y'', var_comment = ''second group'', multiple = True, temporary = False\<rparr>],
      proto_outputs = [\<lparr>var_name = ''Out'', var_comment = ''result'', multiple = False, temporary = False\<rparr>],
      proto_attrs = [\<lparr>attr_name = ''input_format'',
                      attr_comment = ''The multiple index of input\<newline>'' @ multiple_DOC,
                      attr_type = INTS, generated = True\<rparr>],
      proto_comment = ''example''\<rparr>"

definition registry_grouped :: OpRegistry where
  "registry_grouped =
     \<lparr>creators = [''grouped'' \<mapsto> noop_creator],
      op_checkers = [''grouped'' \<mapsto> [\<lparr>checker_attr_name = ''input_format'',
                                        checker_attr_type = INTS, default_value = None\<rparr>]],
      protos = [''grouped'' \<mapsto> proto_grouped],
      VarIndexMaps = [''grouped'' \<mapsto> [''X'' \<mapsto> 0, ''Y'' \<mapsto> 1, ''Out'' \<mapsto> 0]],
      grad_creators = [''grouped'' \<mapsto> noop_creator],
      gUniqId = 0\<rparr>"

definition op_grouped_2_3 :: OperatorBase where
  "op_grouped_2_3 =
     \<lparr>op_type = ''grouped'', op_inputs = [''x0'', ''x1'', ''y0'', ''y1'', ''y2''],
      op_outputs = [''o''], op_attrs = [''input_format'' \<mapsto> AInts [0, 2, 5]],
      in_out_idxs = Some [''X'' \<mapsto> 0, ''Y'' \<mapsto> 1, ''Out'' \<mapsto> 0]\<rparr>"

definition op_grouped_1_1 :: OperatorBase where
  "op_grouped_1_1 =
     \<lparr>op_type = ''grouped'', op_inputs = [''x0'', ''y0''],
      op_outputs = [''o''], op_attrs = [''input_format'' \<mapsto> AInts [0, 1, 2]],
      in_out_idxs = Some [''X'' \<mapsto> 0, ''Y'' \<mapsto> 1, ''Out'' \<mapsto> 0]\<rparr>"

text \<open>
  A maker with two multiple inputs, two multiple outputs, two temporary outputs and an
  attribute of its own.
\<close>

definition decls_grouped :: "decl list" where
  "decls_grouped =
     [DAddInputs ''X'' ''first group'', DAddInputs ''Y'' ''second group'',
      DAddOutputs ''Out'' ''results'' True, DAddOutput ''Mask'' ''scratch'' True True,
      DAddAttr FLOAT ''scale'' ''factor'' False (Some (AFloat 0))]"

text \<open>
  Two threads, one creating a node of kind \<open>mul\<close> with two temporaries among three
  outputs, the other a node of kind \<open>add\<close> with two temporaries; and the node that
  \<^verbatim>\<open>CreateOp\<close> returns for the kind \<open>scale\<close> with one temporary output, made when the
  counter stands at \<open>uid\<close>.
\<close>

definition process_two :: process where
  "process_two =
     \<lparr>counter = 0,
      threads = [\<lparr>th_type = ''mul'', th_outputs = [''@TEMP@'', ''y'', ''@TEMP@''], th_pos = 0\<rparr>,
                 \<lparr>th_type = ''add'', th_outputs = [''@TEMP@'', ''@TEMP@''], th_pos = 0\<rparr>],
      temp_names = []\<rparr>"

definition scale_attrs :: AttributeMap where
  "scale_attrs = [''factor'' \<mapsto> AFloat 3]"

definition scale_node :: "size_t \<Rightarrow> OperatorBase" where
  "scale_node uid =
     \<lparr>op_type = ''scale'', op_inputs = [''x''],
      op_outputs = [temp_name ''@TEMP@'' ''scale'' uid],
      op_attrs = scale_attrs, in_out_idxs = None\<rparr>"

text \<open>
  Registration from nothing: the empty tables, a schema check that finds every field set,
  and the constructor bodies of the makers of \<open>ab_c\<close> and \<open>mul_grad\<close>.
\<close>

definition empty_registry :: OpRegistry where
  "empty_registry =
     \<lparr>creators = Map.empty, op_checkers = Map.empty, protos = Map.empty,
      VarIndexMaps = Map.empty, grad_creators = Map.empty, gUniqId = 0\<rparr>"

definition always_initialized :: "OpProto \<Rightarrow> bool" where
  "always_initialized p = True"

definition no_error_string :: "OpProto \<Rightarrow> string" where
  "no_error_string p = []"

definition decls_ab_c :: "decl list" where
  "decls_ab_c =
     [DAddInput ''a'' ''first'' False, DAddInput ''b'' ''second'' False,
      DAddOutput ''c'' ''result'' False False, DAddComment ''example'']"

definition decls_mul_grad :: "decl list" where
  "decls_mul_grad =
     [DAddInput ''X'' ''input'' False, DAddInput ''Out'' ''output'' False,
      DAddInput ''Out@GRAD'' ''gradient of the output'' False,
      DAddOutput ''X@GRAD'' ''gradient of the input'' False False, DAddComment ''example'']"

section \<open>Properties\<close>

subsection \<open>Validation of a schema\<close>

lemma checker_append:
  "checker (xs @ ys) S = (case checker xs S of Inl e \<Rightarrow> Inl e | Inr S' \<Rightarrow> checker ys S')"
  by (induction xs arbitrary: S) auto

lemma checker_Inr_iff:
  "(checker ns S = Inr S') \<longleftrightarrow> (distinct ns \<and> set ns \<inter> S = {} \<and> S' = S \<union> set ns)"
  by (induction ns arbitrary: S) auto

lemma checker_Inl:
  "checker ns S = Inl e \<Longrightarrow>
   \<exists>n. e = EnforceNotMet (''['' @ n @ ''] is duplicated'') \<and> n \<in> set ns \<and>
       (n \<in> S \<or> 1 < count_list ns n)"
proof (induction ns arbitrary: S)
  case Nil
  then show ?case by simp
next
  case (Cons a ns)
  show ?case
  proof (cases "a \<in> S")
    case True
    with Cons.prems show ?thesis by auto
  next
    case False
    with Cons.prems have "checker ns (insert a S) = Inl e" by simp
    from Cons.IH [OF this] obtain n where
      n: "e = EnforceNotMet (''['' @ n @ ''] is duplicated'')" "n \<in> set ns"
         "n \<in> insert a S \<or> 1 < count_list ns n" by blast
    show ?thesis
    proof (cases "n = a")
      case True
      with n(2) have "count_list ns a \<noteq> 0" by (simp add: count_list_0_iff)
      then have "0 < count_list ns a" by simp
      with True n(1) show ?thesis by auto
    next
      case False
      with n show ?thesis by auto
    qed
  qed
qed

lemma CheckNoDuplicatedInOutAttrs_checker:
  "CheckNoDuplicatedInOutAttrs m =
     (case checker (declared_names (maker_proto m)) {} of Inl e \<Rightarrow> Inl e | Inr S \<Rightarrow> Inr ())"
  by (simp add: CheckNoDuplicatedInOutAttrs_def declared_names_def checker_append
      split: sum.splits)

text \<open>
  Claim C6. \<^verbatim>\<open>Validate()\<close> succeeds, leaving the builder marked validated, exactly when
  the names of the declared attributes, inputs and outputs are pairwise distinct; when a name
  occurs more than once it fails with the validation error that names a duplicated name
  (and the flag is set all the same, since it is set before the check).
\<close>

theorem Validate_fails_iff_duplicated:
  "(distinct (declared_names (maker_proto m)) \<longrightarrow>
      Validate m = (Inr (), m\<lparr>validated := True\<rparr>)) \<and>
   (\<not> distinct (declared_names (maker_proto m)) \<longrightarrow>
      (\<exists>n. 1 < count_list (declared_names (maker_proto m)) n \<and>
           Validate m =
             (Inl (EnforceNotMet (''['' @ n @ ''] is duplicated'')), m\<lparr>validated := True\<rparr>)))"
proof (intro conjI impI)
  assume "distinct (declared_names (maker_proto m))"
  then have "checker (declared_names (maker_proto m)) {} =
      Inr (set (declared_names (maker_proto m)))"
    by (simp add: checker_Inr_iff)
  then show "Validate m = (Inr (), m\<lparr>validated := True\<rparr>)"
    by (simp add: Validate_def CheckNoDuplicatedInOutAttrs_checker)
next
  assume nd: "\<not> distinct (declared_names (maker_proto m))"
  obtain res where res: "checker (declared_names (maker_proto m)) {} = res" by simp
  show "\<exists>n. 1 < count_list (declared_names (maker_proto m)) n \<and>
           Validate m =
             (Inl (EnforceNotMet (''['' @ n @ ''] is duplicated'')), m\<lparr>validated := True\<rparr>)"
  proof (cases res)
    case (Inl e)
    with res checker_Inl [of "declared_names (maker_proto m)" "{}" e]
    obtain n where "e = EnforceNotMet (''['' @ n @ ''] is duplicated'')"
      "1 < count_list (declared_names (maker_proto m)) n" by auto
    with Inl res show ?thesis
      by (auto simp: Validate_def CheckNoDuplicatedInOutAttrs_checker)
  next
    case (Inr S)
    with res nd show ?thesis by (simp add: checker_Inr_iff)
  qed
qed

lemma maker_ok_names: "declared_names (maker_proto maker_ok) = [''scale'', ''X'', ''Out'']"
  by (simp add: maker_ok_def build_def new_OpProtoAndCheckerMaker_def empty_OpProto_def
      AddInput_def AddOutput_def AddAttr_def AddAttrChecker_def declared_names_def)

lemma maker_dup_names: "declared_names (maker_proto maker_dup) = [''X'', ''X'', ''Out'']"
  by (simp add: maker_dup_def build_def new_OpProtoAndCheckerMaker_def empty_OpProto_def
      AddInput_def AddOutput_def AddAttr_def AddAttrChecker_def declared_names_def)

theorem Validate_fails_iff_duplicated_witness:
  "distinct (declared_names (maker_proto maker_ok)) \<and>
   Validate maker_ok = (Inr (), maker_ok\<lparr>validated := True\<rparr>) \<and>
   \<not> distinct (declared_names (maker_proto maker_dup)) \<and>
   Validate maker_dup =
     (Inl (EnforceNotMet ''[X] is duplicated''), maker_dup\<lparr>validated := True\<rparr>)"
  using Validate_fails_iff_duplicated [of maker_ok] Validate_fails_iff_duplicated [of maker_dup]
  by (auto simp: maker_ok_names maker_dup_names split: if_splits)

subsection \<open>Registration\<close>

text \<open>
  A kind that \<^verbatim>\<open>RegisterOp\<close> has registered has its creator and a schema whose declared
  names are pairwise distinct. The tables \<open>registry_ex\<close> and \<open>registry_mul_grad\<close> are
  what \<^verbatim>\<open>RegisterOp\<close> and \<^verbatim>\<open>RegisterGradOp\<close> make of the empty tables.
\<close>

lemma RegisterOp_registered:
  assumes "RegisterOp ii ies c ds t r = (Inr (), r')"
  shows "creators r' t = Some c \<and>
         (\<exists>p. protos r' t = Some p \<and> proto_type p = t \<and> distinct (declared_names p))"
proof -
  let ?maker = "build ds (new_OpProtoAndCheckerMaker
      (case protos r t of None \<Rightarrow> empty_OpProto | Some p \<Rightarrow> p)
      (case op_checkers r t of None \<Rightarrow> [] | Some c \<Rightarrow> c))"
  from assms have v: "fst (Validate ?maker) = Inr ()"
    by (auto simp: RegisterOp_def Let_def split: prod.splits sum.splits if_splits)
  have d: "distinct (declared_names (maker_proto ?maker))"
  proof (rule ccontr)
    assume "\<not> distinct (declared_names (maker_proto ?maker))"
    then have "checker (declared_names (maker_proto ?maker)) {} \<noteq>
        Inr (set (declared_names (maker_proto ?maker)))"
      by (simp add: checker_Inr_iff)
    then obtain e where "checker (declared_names (maker_proto ?maker)) {} = Inl e"
      by (cases "checker (declared_names (maker_proto ?maker)) {}")
         (auto simp: checker_Inr_iff)
    with v show False
      by (simp add: Validate_def CheckNoDuplicatedInOutAttrs_checker)
  qed
  from assms have "creators r' t = Some c"
    and "protos r' t = Some ((maker_proto ?maker)\<lparr>proto_type := t\<rparr>)"
    by (auto simp: RegisterOp_def Validate_def Let_def split: prod.splits sum.splits if_splits)
  with d show ?thesis by (simp add: declared_names_def)
qed

lemmas register_defs =
  RegisterOp_def RegisterGradOp_def empty_registry_def always_initialized_def
  no_error_string_def Validate_def CheckNoDuplicatedInOutAttrs_def build_def
  new_OpProtoAndCheckerMaker_def empty_OpProto_def AddInput_def AddOutput_def AddComment_def
  Let_def

lemma registry_ex_registered:
  "fst (RegisterOp always_initialized no_error_string noop_creator decls_ab_c ''ab_c''
         empty_registry) = Inr ()"
  "RegisterGradOp noop_creator ''ab_c''
     (snd (RegisterOp always_initialized no_error_string noop_creator decls_ab_c ''ab_c''
            empty_registry)) = registry_ex"
  by (simp_all add: register_defs decls_ab_c_def registry_ex_def proto_ab_c_def)

lemma registry_mul_grad_registered:
  "fst (RegisterOp always_initialized no_error_string noop_creator decls_mul_grad ''mul_grad''
         empty_registry) = Inr ()"
  "RegisterGradOp noop_creator ''mul_grad''
     (snd (RegisterOp always_initialized no_error_string noop_creator decls_mul_grad ''mul_grad''
            empty_registry)) = registry_mul_grad"
  by (simp_all add: register_defs decls_mul_grad_def registry_mul_grad_def proto_mul_grad_def)

subsection \<open>Gradient nodes: wiring\<close>

lemma GenerateGradAttr_fields:
  "GenerateGradAttr r op g = (Inr g', r') \<Longrightarrow>
   op_type g' = op_type g \<and> op_inputs g' = op_inputs g \<and> op_outputs g' = op_outputs g \<and>
   in_out_idxs g' = in_out_idxs g"
  by (auto simp: GenerateGradAttr_def Let_def split: prod.splits sum.splits if_splits)

lemma CreateGradOp_Inr:
  assumes "grad_creators r (op_type op) = Some c" and "fst (CreateGradOp r op) = Inr g"
  shows "\<exists>g3 r1 r2. GenerateGradAttr r1 op
            ((AssembleGradInOut op (new_OperatorBase\<lparr>op_type := op_type op\<rparr>))
               \<lparr>in_out_idxs := Some (grad_varmap_of (fst (protos_subscript r (op_type op))))\<rparr>)
            = (Inr g3, r2) \<and> Init c g3 = Inr g"
  using assms
  by (auto simp: CreateGradOp_def GenerateGradArgOffset_def Let_def
      split: prod.splits sum.splits)

lemma CreateGradOp_fields:
  assumes "grad_creators r (op_type op) = Some c" and "Init_keeps c"
    and "fst (CreateGradOp r op) = Inr g"
  shows "op_type g = op_type op"
    and "op_inputs g = op_inputs op @ op_outputs op @
           map (\<lambda>n. n @ GRAD_VAR_SUFFIX) (op_outputs op)"
    and "op_outputs g = map (\<lambda>n. n @ GRAD_VAR_SUFFIX) (op_inputs op)"
    and "in_out_idxs g = Some (grad_varmap_of (fst (protos_subscript r (op_type op))))"
proof -
  from CreateGradOp_Inr [OF assms(1,3)] obtain g3 r1 r2 where
    a: "GenerateGradAttr r1 op
            ((AssembleGradInOut op (new_OperatorBase\<lparr>op_type := op_type op\<rparr>))
               \<lparr>in_out_idxs := Some (grad_varmap_of (fst (protos_subscript r (op_type op))))\<rparr>)
            = (Inr g3, r2)" and i: "Init c g3 = Inr g" by blast
  from i assms(2) have "g = g3" by (auto simp: Init_keeps_def)
  with GenerateGradAttr_fields [OF a]
  show "op_type g = op_type op"
    and "op_inputs g = op_inputs op @ op_outputs op @
           map (\<lambda>n. n @ GRAD_VAR_SUFFIX) (op_outputs op)"
    and "op_outputs g = map (\<lambda>n. n @ GRAD_VAR_SUFFIX) (op_inputs op)"
    and "in_out_idxs g = Some (grad_varmap_of (fst (protos_subscript r (op_type op))))"
    by (simp_all add: AssembleGradInOut_def new_OperatorBase_def)
qed

text \<open>
  \<^verbatim>\<open>CreateGradOp\<close> reaches \<^verbatim>\<open>Init()\<close> whenever the kind has a gradient creator and the
  format attributes of the forward node, where present, hold lists of \<^verbatim>\<open>int\<close>: its
  result is then what \<^verbatim>\<open>Init()\<close> returns.
\<close>

lemma GenerateGradAttr_returns:
  assumes "op_attrs op ''input_format'' = None \<or> (\<exists>v. op_attrs op ''input_format'' = Some (AInts v))"
    and "op_attrs op ''output_format'' = None \<or> (\<exists>v. op_attrs op ''output_format'' = Some (AInts v))"
  shows "\<exists>g'. fst (GenerateGradAttr r op g) = Inr g'"
  using assms
  by (auto simp: GenerateGradAttr_def GetAttr_ints_def Let_def split: prod.splits)

lemma CreateGradOp_returns:
  assumes "grad_creators r (op_type op) = Some c"
    and "op_attrs op ''input_format'' = None \<or> (\<exists>v. op_attrs op ''input_format'' = Some (AInts v))"
    and "op_attrs op ''output_format'' = None \<or> (\<exists>v. op_attrs op ''output_format'' = Some (AInts v))"
  shows "\<exists>g. fst (CreateGradOp r op) = Init c g"
proof -
  obtain g2 r1 where a: "GenerateGradArgOffset r op
      (AssembleGradInOut op (new_OperatorBase\<lparr>op_type := op_type op\<rparr>)) = (g2, r1)"
    by (cases "GenerateGradArgOffset r op
      (AssembleGradInOut op (new_OperatorBase\<lparr>op_type := op_type op\<rparr>))")
  from GenerateGradAttr_returns [OF assms(2,3), of r1 g2] obtain g3 where
    "fst (GenerateGradAttr r1 op g2) = Inr g3" by blast
  then obtain r2 where "GenerateGradAttr r1 op g2 = (Inr g3, r2)"
    by (cases "GenerateGradAttr r1 op g2") simp
  with assms(1) a have "fst (CreateGradOp r op) = Init c g3"
    by (simp add: CreateGradOp_def Let_def)
  then show ?thesis by blast
qed

text \<open>
  Claim C3. When the kind of the forward node has a gradient constructor and \<^verbatim>\<open>CreateGradOp\<close>
  returns a node (its initializer leaving the node alone), the inputs of that node are the
  forward inputs, then the forward outputs, then the forward outputs with the gradient suffix,
  and its outputs are the forward inputs with the gradient suffix, all in order.
\<close>

theorem CreateGradOp_inputs_outputs:
  assumes "grad_creators r (op_type op) = Some grad_create"
    and "Init_keeps grad_create"
    and "fst (CreateGradOp r op) = Inr grad_op"
  shows "op_inputs grad_op =
           op_inputs op @ op_outputs op @ map (\<lambda>n. n @ GRAD_VAR_SUFFIX) (op_outputs op) \<and>
         op_outputs grad_op = map (\<lambda>n. n @ GRAD_VAR_SUFFIX) (op_inputs op)"
  using CreateGradOp_fields(2,3) [OF assms] by simp

lemma Init_keeps_noop: "Init_keeps noop_creator"
  by (simp add: Init_keeps_def noop_creator_def)

lemma grad_varmap_ab_c:
  "grad_varmap_of proto_ab_c =
     [''a'' \<mapsto> 0, ''b'' \<mapsto> 1, ''c'' \<mapsto> 2, ''c@GRAD'' \<mapsto> 3, ''a@GRAD'' \<mapsto> 0, ''b@GRAD'' \<mapsto> 1]"
  by (simp add: grad_varmap_of_def proto_ab_c_def GRAD_VAR_SUFFIX_def)

lemma CreateGradOp_ab_c:
  "CreateGradOp registry_ex op_ab_c =
     (Inr \<lparr>op_type = ''ab_c'', op_inputs = [''a'', ''b'', ''c'', ''c@GRAD''],
           op_outputs = [''a@GRAD'', ''b@GRAD''], op_attrs = Map.empty,
           in_out_idxs = Some (grad_varmap_of proto_ab_c)\<rparr>, registry_ex)"
  by (simp add: CreateGradOp_def registry_ex_def op_ab_c_def GenerateGradArgOffset_def
      GenerateGradAttr_def protos_subscript_def AssembleGradInOut_def new_OperatorBase_def
      noop_creator_def GRAD_VAR_SUFFIX_def Let_def)

theorem CreateGradOp_inputs_outputs_witness:
  "grad_creators registry_ex (op_type op_ab_c) = Some noop_creator \<and>
   Init_keeps noop_creator \<and>
   (\<exists>g. fst (CreateGradOp registry_ex op_ab_c) = Inr g \<and>
        op_inputs g = [''a'', ''b'', ''c'', ''c@GRAD''] \<and>
        op_outputs g = [''a@GRAD'', ''b@GRAD''])"
proof -
  have 1: "grad_creators registry_ex (op_type op_ab_c) = Some noop_creator"
    by (simp add: registry_ex_def op_ab_c_def)
  obtain g where 2: "fst (CreateGradOp registry_ex op_ab_c) = Inr g"
    by (simp add: CreateGradOp_ab_c)
  from CreateGradOp_inputs_outputs [OF 1 Init_keeps_noop 2]
  have "op_inputs g = [''a'', ''b'', ''c'', ''c@GRAD''] \<and> op_outputs g = [''a@GRAD'', ''b@GRAD'']"
    by (simp add: op_ab_c_def GRAD_VAR_SUFFIX_def)
  with 1 2 Init_keeps_noop show ?thesis by blast
qed

subsection \<open>Failures of construction\<close>

lemma GetAttrValue_Inl:
  "GetAttrValue a = Inl e \<longleftrightarrow>
   attr_desc_type a = UNKNOWN_TYPE \<and> e = EnforceNotMet ''Unknown OpDesc::AttrDesc::type !''"
  by (auto simp: GetAttrValue_def split: AttrType.splits)

lemma decode_attrs_unknown:
  "\<exists>a\<in>set ds. attr_desc_type a = UNKNOWN_TYPE \<Longrightarrow>
   decode_attrs ds attrs = Inl (EnforceNotMet ''Unknown OpDesc::AttrDesc::type !'')"
proof (induction ds arbitrary: attrs)
  case Nil
  then show ?case by simp
next
  case (Cons d ds)
  show ?case
  proof (cases "GetAttrValue d")
    case (Inl e)
    then have "e = EnforceNotMet ''Unknown OpDesc::AttrDesc::type !''"
      by (simp add: GetAttrValue_Inl)
    with Inl show ?thesis by simp
  next
    case (Inr v)
    then have "attr_desc_type d \<noteq> UNKNOWN_TYPE"
      by (auto simp: GetAttrValue_def)
    with Cons.prems have "\<exists>a\<in>set ds. attr_desc_type a = UNKNOWN_TYPE" by auto
    with Cons.IH Inr show ?thesis by simp
  qed
qed

text \<open>
  Claim C7. \<^verbatim>\<open>CreateOp\<close> for a kind without a creator fails with the ``cannot be found''
  error; \<^verbatim>\<open>CreateOp\<close> fails with the checker's error when the kind's checker rejects the
  attribute map; \<^verbatim>\<open>GetAttrValue\<close> fails on an unrecognized type tag, and so does
  \<^verbatim>\<open>CreateOp\<close> on a descriptor that holds such an attribute; \<^verbatim>\<open>CreateGradOp\<close> fails
  for a kind without a gradient creator. Each time the call itself yields the error, no
  node, and the registry as it was.
\<close>

theorem CreateOp_failures:
  "(creators r type' = None \<longrightarrow>
      CreateOp Check tmp r type' inputs outputs attrs =
        (Inl (EnforceNotMet (''Operator '' @ type' @ '' cannot be found.'')), r)) \<and>
   (creators r type' \<noteq> None \<and> op_checkers r type' = Some op_checker \<and>
    Check op_checker attrs = Inl e \<longrightarrow>
      CreateOp Check tmp r type' inputs outputs attrs = (Inl e, r)) \<and>
   (attr_desc_type attr_desc = UNKNOWN_TYPE \<longrightarrow>
      GetAttrValue attr_desc = Inl (EnforceNotMet ''Unknown OpDesc::AttrDesc::type !'')) \<and>
   ((\<exists>a\<in>set (op_desc_attrs op_desc). attr_desc_type a = UNKNOWN_TYPE) \<longrightarrow>
      CreateOp_OpDesc Check tmp r op_desc =
        (Inl (EnforceNotMet ''Unknown OpDesc::AttrDesc::type !''), r)) \<and>
   (grad_creators r (op_type op) = None \<longrightarrow> CreateGradOp r op = (Inl out_of_range, r))"
proof (intro conjI impI)
  assume "creators r type' = None"
  then show "CreateOp Check tmp r type' inputs outputs attrs =
        (Inl (EnforceNotMet (''Operator '' @ type' @ '' cannot be found.'')), r)"
    by (simp add: CreateOp_def)
next
  assume "creators r type' \<noteq> None \<and> op_checkers r type' = Some op_checker \<and>
    Check op_checker attrs = Inl e"
  then show "CreateOp Check tmp r type' inputs outputs attrs = (Inl e, r)"
    by (auto simp: CreateOp_def new_OperatorBase_def)
next
  assume "attr_desc_type attr_desc = UNKNOWN_TYPE"
  then show "GetAttrValue attr_desc = Inl (EnforceNotMet ''Unknown OpDesc::AttrDesc::type !'')"
    by (simp add: GetAttrValue_def)
next
  assume "\<exists>a\<in>set (op_desc_attrs op_desc). attr_desc_type a = UNKNOWN_TYPE"
  then show "CreateOp_OpDesc Check tmp r op_desc =
        (Inl (EnforceNotMet ''Unknown OpDesc::AttrDesc::type !''), r)"
    by (simp add: CreateOp_OpDesc_def decode_attrs_unknown)
next
  assume "grad_creators r (op_type op) = None"
  then show "CreateGradOp r op = (Inl out_of_range, r)"
    by (simp add: CreateGradOp_def)
qed

theorem CreateOp_failures_witness:
  "creators registry_scale ''relu'' = None \<and>
   CreateOp Check_required ''@TEMP@'' registry_scale ''relu'' [''x''] [''y''] Map.empty =
     (Inl (EnforceNotMet ''Operator relu cannot be found.''), registry_scale) \<and>
   creators registry_scale ''scale'' \<noteq> None \<and>
   CreateOp Check_required ''@TEMP@'' registry_scale ''scale'' [''x''] [''y''] Map.empty =
     (Inl (EnforceNotMet ''Attribute factor is required!''), registry_scale) \<and>
   attr_desc_type attr_desc_bad = UNKNOWN_TYPE \<and>
   GetAttrValue attr_desc_bad = Inl (EnforceNotMet ''Unknown OpDesc::AttrDesc::type !'') \<and>
   CreateOp_OpDesc Check_required ''@TEMP@'' registry_scale op_desc_bad =
     (Inl (EnforceNotMet ''Unknown OpDesc::AttrDesc::type !''), registry_scale) \<and>
   grad_creators registry_scale ''scale'' = None \<and>
   CreateGradOp registry_scale
     \<lparr>op_type = ''scale'', op_inputs = [''x''], op_outputs = [''y''], op_attrs = Map.empty,
      in_out_idxs = None\<rparr> = (Inl out_of_range, registry_scale)"
  using
    CreateOp_failures [of registry_scale "''relu''" Check_required "''@TEMP@''" "[''x'']" "[''y'']"
      Map.empty "[]" "EnforceNotMet []" attr_desc_bad op_desc_bad
      "\<lparr>op_type = ''scale'', op_inputs = [''x''], op_outputs = [''y''], op_attrs = Map.empty,
        in_out_idxs = None\<rparr>"]
    CreateOp_failures [of registry_scale "''scale''" Check_required "''@TEMP@''" "[''x'']" "[''y'']"
      Map.empty
      "[\<lparr>checker_attr_name = ''factor'', checker_attr_type = FLOAT, default_value = None\<rparr>]"
      "EnforceNotMet ''Attribute factor is required!''" attr_desc_bad op_desc_bad
      "\<lparr>op_type = ''scale'', op_inputs = [''x''], op_outputs = [''y''], op_attrs = Map.empty,
        in_out_idxs = None\<rparr>"]
  by (simp add: registry_scale_def attr_desc_bad_def op_desc_bad_def)

text \<open>
  Claim C10. When the kind has a creator and a checker that accepts the attributes, but no
  entry in \<^verbatim>\<open>VarIndexMaps\<close>, \<^verbatim>\<open>CreateOp\<close> raises nothing of its own: its result is
  what the kind's \<^verbatim>\<open>Init()\<close> returns on a node whose index reference is unset, and a
  node that comes back from an initializer that leaves it alone has the reference unset.
\<close>

theorem CreateOp_without_VarIndexMap:
  assumes "creators r type' = Some op_create"
    and "op_checkers r type' = Some op_checker"
    and "Check op_checker attrs = Inr attrs'"
    and "VarIndexMaps r type' = None"
  shows "\<exists>node r'. in_out_idxs node = None \<and>
           CreateOp Check tmp r type' inputs outputs attrs = (Init op_create node, r') \<and>
           (Init_keeps op_create \<longrightarrow>
              (\<forall>n. fst (CreateOp Check tmp r type' inputs outputs attrs) = Inr n \<longrightarrow>
                   in_out_idxs n = None))"
proof -
  obtain outs uid where
    loop: "GenerateTempVariableName_loop tmp type' outputs (gUniqId r) = (outs, uid)"
    by (cases "GenerateTempVariableName_loop tmp type' outputs (gUniqId r)")
  define node where
    "node = \<lparr>op_type = type', op_inputs = inputs, op_outputs = outs, op_attrs = attrs',
              in_out_idxs = None\<rparr>"
  have res: "CreateOp Check tmp r type' inputs outputs attrs =
      (Init op_create node, r\<lparr>gUniqId := uid\<rparr>)"
    using assms loop
    by (simp add: CreateOp_def GenerateTempVariableName_def new_OperatorBase_def node_def)
  have idx: "in_out_idxs node = None" by (simp add: node_def)
  have "\<forall>n. fst (CreateOp Check tmp r type' inputs outputs attrs) = Inr n \<longrightarrow>
          in_out_idxs n = None" if "Init_keeps op_create"
    using that res idx by (auto simp: Init_keeps_def)
  with res idx show ?thesis by blast
qed

theorem CreateOp_without_VarIndexMap_witness:
  "creators registry_scale ''scale'' = Some noop_creator \<and>
   VarIndexMaps registry_scale ''scale'' = None \<and>
   Check_required (the (op_checkers registry_scale ''scale'')) [''factor'' \<mapsto> AFloat 3] =
     Inr [''factor'' \<mapsto> AFloat 3] \<and>
   Init_keeps noop_creator \<and>
   (\<exists>n. fst (CreateOp Check_required ''@TEMP@'' registry_scale ''scale'' [''x''] [''y'']
              [''factor'' \<mapsto> AFloat 3]) = Inr n \<and> in_out_idxs n = None)"
proof -
  have 1: "creators registry_scale ''scale'' = Some noop_creator"
    and 2: "op_checkers registry_scale ''scale'' =
      Some [\<lparr>checker_attr_name = ''factor'', checker_attr_type = FLOAT, default_value = None\<rparr>]"
    and 4: "VarIndexMaps registry_scale ''scale'' = None"
    by (simp_all add: registry_scale_def)
  have 3: "Check_required
      [\<lparr>checker_attr_name = ''factor'', checker_attr_type = FLOAT, default_value = None\<rparr>]
      [''factor'' \<mapsto> AFloat 3] = Inr [''factor'' \<mapsto> AFloat 3]"
    by simp
  from CreateOp_without_VarIndexMap
         [where Check = Check_required and tmp = "''@TEMP@''" and inputs = "[''x'']"
            and outputs = "[''y'']" and attrs = "[''factor'' \<mapsto> AFloat 3]", OF 1 2 3 4]
  obtain node r' where
    a: "in_out_idxs node = None"
    and b: "CreateOp Check_required ''@TEMP@'' registry_scale ''scale'' [''x''] [''y'']
         [''factor'' \<mapsto> AFloat 3] = (Init noop_creator node, r')"
    by blast
  from b have "fst (CreateOp Check_required ''@TEMP@'' registry_scale ''scale'' [''x''] [''y'']
         [''factor'' \<mapsto> AFloat 3]) = Inr node"
    by (simp add: noop_creator_def)
  with a 1 2 3 4 Init_keeps_noop show ?thesis by auto
qed

lemma protos_subscript_op_checkers:
  "protos_subscript (r\<lparr>op_checkers := cs\<rparr>) t =
     (fst (protos_subscript r t), (snd (protos_subscript r t))\<lparr>op_checkers := cs\<rparr>)"
  by (simp add: protos_subscript_def split: option.splits)

lemma GenerateGradAttr_op_checkers:
  "GenerateGradAttr (r\<lparr>op_checkers := cs\<rparr>) op g =
     (fst (GenerateGradAttr r op g), (snd (GenerateGradAttr r op g))\<lparr>op_checkers := cs\<rparr>)"
  by (cases "protos_subscript r (op_type op)")
     (simp add: GenerateGradAttr_def protos_subscript_op_checkers Let_def split: sum.splits)

lemma CreateGradOp_op_checkers:
  "fst (CreateGradOp (r\<lparr>op_checkers := cs\<rparr>) op) = fst (CreateGradOp r op)"
  by (simp add: CreateGradOp_def GenerateGradArgOffset_def protos_subscript_op_checkers
      GenerateGradAttr_op_checkers Let_def
      split: prod.splits sum.splits option.splits)

text \<open>
  Claim C9. The gradient node that \<^verbatim>\<open>CreateGradOp\<close> returns carries the kind name of the
  forward node, and the table of attribute checkers plays no part in its construction:
  with any other table in place of \<^verbatim>\<open>op_checkers()\<close> the same node comes back.
\<close>

theorem CreateGradOp_type_and_no_check:
  assumes "grad_creators r (op_type op) = Some grad_create"
    and "Init_keeps grad_create"
    and "fst (CreateGradOp r op) = Inr grad_op"
  shows "op_type grad_op = op_type op \<and>
         (\<forall>cs. fst (CreateGradOp (r\<lparr>op_checkers := cs\<rparr>) op) = Inr grad_op)"
  using CreateGradOp_fields(1) [OF assms] assms(3) by (simp add: CreateGradOp_op_checkers)

theorem CreateGradOp_type_and_no_check_witness:
  "grad_creators registry_ex (op_type op_ab_c) = Some noop_creator \<and>
   Init_keeps noop_creator \<and>
   (\<exists>g. fst (CreateGradOp registry_ex op_ab_c) = Inr g \<and> op_type g = ''ab_c'' \<and>
        fst (CreateGradOp (registry_ex\<lparr>op_checkers := op_checkers registry_scale\<rparr>) op_ab_c)
          = Inr g)"
proof -
  have 1: "grad_creators registry_ex (op_type op_ab_c) = Some noop_creator"
    by (simp add: registry_ex_def op_ab_c_def)
  obtain g where 2: "fst (CreateGradOp registry_ex op_ab_c) = Inr g"
    by (simp add: CreateGradOp_ab_c)
  from CreateGradOp_type_and_no_check [OF 1 Init_keeps_noop 2]
  have "op_type g = ''ab_c'' \<and>
        fst (CreateGradOp (registry_ex\<lparr>op_checkers := op_checkers registry_scale\<rparr>) op_ab_c)
          = Inr g"
    by (simp add: op_ab_c_def)
  with 1 2 Init_keeps_noop show ?thesis by blast
qed

subsection \<open>The passes of the execution list\<close>

lemma InferShape_loop_prefix:
  "\<exists>k. snd (InferShape_loop f ops w calls) = calls @ take k ops"
proof (induction ops arbitrary: w calls)
  case Nil
  then show ?case by simp
next
  case (Cons op rest)
  show ?case
  proof (cases "f op w")
    case (Inl e)
    then have "snd (InferShape_loop f (op # rest) w calls) = calls @ take 1 (op # rest)"
      by simp
    then show ?thesis by blast
  next
    case (Inr w')
    from Cons.IH [of w' "calls @ [op]"] obtain k where
      "snd (InferShape_loop f rest w' (calls @ [op])) = (calls @ [op]) @ take k rest" by blast
    with Inr have "snd (InferShape_loop f (op # rest) w calls) = calls @ take (Suc k) (op # rest)"
      by simp
    then show ?thesis by blast
  qed
qed

lemma InferShape_loop_all:
  "\<not> isl (fst (InferShape_loop f ops w calls)) \<Longrightarrow>
   snd (InferShape_loop f ops w calls) = calls @ ops"
  by (induction ops arbitrary: w calls) (auto split: sum.splits)

lemma InferShape_loop_returns:
  "\<forall>op w. \<not> isl (f op w) \<Longrightarrow> \<not> isl (fst (InferShape_loop f ops w calls))"
proof (induction ops arbitrary: w calls)
  case Nil
  then show ?case by simp
next
  case (Cons op rest)
  from Cons.prems have "\<not> isl (f op w)" by blast
  then obtain w' where "f op w = Inr w'" by (cases "f op w") auto
  with Cons show ?case by simp
qed

lemma InferShape_loop_apply_all:
  "fst (InferShape_loop f ops w calls) = apply_all f ops w"
  by (induction ops arbitrary: w calls) (simp_all split: sum.splits)

lemma InferShape_loop_throws:
  "isl (fst (InferShape_loop f ops w calls)) \<Longrightarrow>
   \<exists>k v. k < length ops \<and> apply_all f (take k ops) w = Inr v \<and> isl (f (ops ! k) v) \<and>
         snd (InferShape_loop f ops w calls) = calls @ take (Suc k) ops"
proof (induction ops arbitrary: w calls)
  case Nil
  then show ?case by simp
next
  case (Cons op rest)
  show ?case
  proof (cases "f op w")
    case (Inl e)
    then have "0 < length (op # rest) \<and> apply_all f (take 0 (op # rest)) w = Inr w \<and>
        isl (f ((op # rest) ! 0) w) \<and>
        snd (InferShape_loop f (op # rest) w calls) = calls @ take (Suc 0) (op # rest)"
      by simp
    then show ?thesis by blast
  next
    case (Inr w')
    with Cons.prems have "isl (fst (InferShape_loop f rest w' (calls @ [op])))" by simp
    from Cons.IH [OF this] obtain k v where
      "k < length rest" "apply_all f (take k rest) w' = Inr v" "isl (f (rest ! k) v)"
      "snd (InferShape_loop f rest w' (calls @ [op])) = (calls @ [op]) @ take (Suc k) rest"
      by blast
    with Inr have "Suc k < length (op # rest) \<and> apply_all f (take (Suc k) (op # rest)) w = Inr v \<and>
        isl (f ((op # rest) ! Suc k) v) \<and>
        snd (InferShape_loop f (op # rest) w calls) = calls @ take (Suc (Suc k)) (op # rest)"
      by simp
    then show ?thesis by blast
  qed
qed

lemma Run_loop_prefix:
  "\<exists>k. snd (Run_loop g ops ctx w calls) = calls @ take k (map (\<lambda>op. (op, ctx)) ops)"
proof (induction ops arbitrary: w calls)
  case Nil
  then show ?case by simp
next
  case (Cons op rest)
  show ?case
  proof (cases "g op ctx w")
    case (Inl e)
    then have "snd (Run_loop g (op # rest) ctx w calls) =
        calls @ take 1 (map (\<lambda>op. (op, ctx)) (op # rest))"
      by simp
    then show ?thesis by blast
  next
    case (Inr w')
    from Cons.IH [of w' "calls @ [(op, ctx)]"] obtain k where
      "snd (Run_loop g rest ctx w' (calls @ [(op, ctx)])) =
         (calls @ [(op, ctx)]) @ take k (map (\<lambda>op. (op, ctx)) rest)" by blast
    with Inr have "snd (Run_loop g (op # rest) ctx w calls) =
        calls @ take (Suc k) (map (\<lambda>op. (op, ctx)) (op # rest))"
      by simp
    then show ?thesis by blast
  qed
qed

lemma Run_loop_all:
  "\<not> isl (fst (Run_loop g ops ctx w calls)) \<Longrightarrow>
   snd (Run_loop g ops ctx w calls) = calls @ map (\<lambda>op. (op, ctx)) ops"
  by (induction ops arbitrary: w calls) (auto split: sum.splits)

lemma Run_loop_returns:
  "\<forall>op w. \<not> isl (g op ctx w) \<Longrightarrow> \<not> isl (fst (Run_loop g ops ctx w calls))"
proof (induction ops arbitrary: w calls)
  case Nil
  then show ?case by simp
next
  case (Cons op rest)
  from Cons.prems have "\<not> isl (g op ctx w)" by blast
  then obtain w' where "g op ctx w = Inr w'" by (cases "g op ctx w") auto
  with Cons show ?case by simp
qed

lemma Run_loop_apply_all:
  "fst (Run_loop g ops ctx w calls) = apply_all (\<lambda>op. g op ctx) ops w"
  by (induction ops arbitrary: w calls) (simp_all split: sum.splits)

lemma Run_loop_throws:
  "isl (fst (Run_loop g ops ctx w calls)) \<Longrightarrow>
   \<exists>k v. k < length ops \<and> apply_all (\<lambda>op. g op ctx) (take k ops) w = Inr v \<and>
         isl (g (ops ! k) ctx v) \<and>
         snd (Run_loop g ops ctx w calls) = calls @ take (Suc k) (map (\<lambda>op. (op, ctx)) ops)"
proof (induction ops arbitrary: w calls)
  case Nil
  then show ?case by simp
next
  case (Cons op rest)
  show ?case
  proof (cases "g op ctx w")
    case (Inl e)
    then have "0 < length (op # rest) \<and>
        apply_all (\<lambda>op. g op ctx) (take 0 (op # rest)) w = Inr w \<and>
        isl (g ((op # rest) ! 0) ctx w) \<and>
        snd (Run_loop g (op # rest) ctx w calls) =
          calls @ take (Suc 0) (map (\<lambda>op. (op, ctx)) (op # rest))"
      by simp
    then show ?thesis by blast
  next
    case (Inr w')
    with Cons.prems have "isl (fst (Run_loop g rest ctx w' (calls @ [(op, ctx)])))" by simp
    from Cons.IH [OF this] obtain k v where
      "k < length rest" "apply_all (\<lambda>op. g op ctx) (take k rest) w' = Inr v"
      "isl (g (rest ! k) ctx v)"
      "snd (Run_loop g rest ctx w' (calls @ [(op, ctx)])) =
         (calls @ [(op, ctx)]) @ take (Suc k) (map (\<lambda>op. (op, ctx)) rest)"
      by blast
    with Inr have "Suc k < length (op # rest) \<and>
        apply_all (\<lambda>op. g op ctx) (take (Suc k) (op # rest)) w = Inr v \<and>
        isl (g ((op # rest) ! Suc k) ctx v) \<and>
        snd (Run_loop g (op # rest) ctx w calls) =
          calls @ take (Suc (Suc k)) (map (\<lambda>op. (op, ctx)) (op # rest))"
      by simp
    then show ?thesis by blast
  qed
qed

text \<open>
  Claim C8. \<^verbatim>\<open>InferShape\<close> calls \<^verbatim>\<open>op.InferShape()\<close> and \<^verbatim>\<open>Run\<close> calls
  \<^verbatim>\<open>op.Run(ctx)\<close>, with the device context it was given, on the nodes of the list in list
  order. What the pass leaves is what the nodes' operations give when applied one after
  the other in list order, each to the state the one before left (\<open>apply_all\<close>), an
  exception of a node being the result of the pass. The calls made are always an initial
  segment of the list, and they are the whole list, each node once, when the pass returns;
  it returns whenever no node throws. When the pass throws, the calls made are the nodes
  up to and including the one that threw, the nodes before it having been applied in
  order. The net itself is returned as it was.
\<close>

theorem PlainNet_passes_in_list_order:
  "(case PlainNet_InferShape f net scope w of
      (res, net', calls) \<Rightarrow>
        net' = net \<and>
        (\<exists>k. calls = take k (net_ops net)) \<and>
        (\<not> isl res \<longrightarrow> calls = net_ops net) \<and>
        ((\<forall>op w. \<not> isl (f op w)) \<longrightarrow> \<not> isl res) \<and>
        res = apply_all f (net_ops net) w \<and>
        (isl res \<longrightarrow>
           (\<exists>k v. k < length (net_ops net) \<and>
                  apply_all f (take k (net_ops net)) w = Inr v \<and>
                  isl (f (net_ops net ! k) v) \<and>
                  calls = take (Suc k) (net_ops net)))) \<and>
   (case PlainNet_Run g net scope ctx w' of
      (res, net', calls) \<Rightarrow>
        net' = net \<and>
        (\<exists>k. calls = take k (map (\<lambda>op. (op, ctx)) (net_ops net))) \<and>
        (\<not> isl res \<longrightarrow> calls = map (\<lambda>op. (op, ctx)) (net_ops net)) \<and>
        ((\<forall>op w. \<not> isl (g op ctx w)) \<longrightarrow> \<not> isl res) \<and>
        res = apply_all (\<lambda>op. g op ctx) (net_ops net) w' \<and>
        (isl res \<longrightarrow>
           (\<exists>k v. k < length (net_ops net) \<and>
                  apply_all (\<lambda>op. g op ctx) (take k (net_ops net)) w' = Inr v \<and>
                  isl (g (net_ops net ! k) ctx v) \<and>
                  calls = take (Suc k) (map (\<lambda>op. (op, ctx)) (net_ops net)))))"
proof -
  obtain res1 calls1 where 1: "InferShape_loop f (net_ops net) w [] = (res1, calls1)"
    by (cases "InferShape_loop f (net_ops net) w []")
  obtain res2 calls2 where 2: "Run_loop g (net_ops net) ctx w' [] = (res2, calls2)"
    by (cases "Run_loop g (net_ops net) ctx w' []")
  from 1 InferShape_loop_prefix [of f "net_ops net" w "[]"]
  have a: "\<exists>k. calls1 = take k (net_ops net)" by simp
  from 1 InferShape_loop_all [of f "net_ops net" w "[]"]
  have b: "\<not> isl res1 \<longrightarrow> calls1 = net_ops net" by simp
  from 1 InferShape_loop_returns [of f "net_ops net" w "[]"]
  have c: "(\<forall>op w. \<not> isl (f op w)) \<longrightarrow> \<not> isl res1" by simp
  from 1 InferShape_loop_apply_all [of f "net_ops net" w "[]"]
  have a': "res1 = apply_all f (net_ops net) w" by simp
  from 1 InferShape_loop_throws [of f "net_ops net" w "[]"]
  have b': "isl res1 \<longrightarrow>
      (\<exists>k v. k < length (net_ops net) \<and> apply_all f (take k (net_ops net)) w = Inr v \<and>
             isl (f (net_ops net ! k) v) \<and> calls1 = take (Suc k) (net_ops net))" by simp
  from 2 Run_loop_prefix [of g "net_ops net" ctx w' "[]"]
  have d: "\<exists>k. calls2 = take k (map (\<lambda>op. (op, ctx)) (net_ops net))" by simp
  from 2 Run_loop_all [of g "net_ops net" ctx w' "[]"]
  have e: "\<not> isl res2 \<longrightarrow> calls2 = map (\<lambda>op. (op, ctx)) (net_ops net)" by simp
  from 2 Run_loop_returns [of g ctx "net_ops net" w' "[]"]
  have f: "(\<forall>op w. \<not> isl (g op ctx w)) \<longrightarrow> \<not> isl res2" by simp
  from 2 Run_loop_apply_all [of g "net_ops net" ctx w' "[]"]
  have d': "res2 = apply_all (\<lambda>op. g op ctx) (net_ops net) w'" by simp
  from 2 Run_loop_throws [of g "net_ops net" ctx w' "[]"]
  have e': "isl res2 \<longrightarrow>
      (\<exists>k v. k < length (net_ops net) \<and>
             apply_all (\<lambda>op. g op ctx) (take k (net_ops net)) w' = Inr v \<and>
             isl (g (net_ops net ! k) ctx v) \<and>
             calls2 = take (Suc k) (map (\<lambda>op. (op, ctx)) (net_ops net)))" by simp
  have i: "net = net \<and>
        (\<exists>k. calls1 = take k (net_ops net)) \<and>
        (\<not> isl res1 \<longrightarrow> calls1 = net_ops net) \<and>
        ((\<forall>op w. \<not> isl (f op w)) \<longrightarrow> \<not> isl res1) \<and>
        res1 = apply_all f (net_ops net) w \<and>
        (isl res1 \<longrightarrow>
           (\<exists>k v. k < length (net_ops net) \<and>
                  apply_all f (take k (net_ops net)) w = Inr v \<and>
                  isl (f (net_ops net ! k) v) \<and>
                  calls1 = take (Suc k) (net_ops net)))"
    using a b c a' b' by blast
  have r: "net = net \<and>
        (\<exists>k. calls2 = take k (map (\<lambda>op. (op, ctx)) (net_ops net))) \<and>
        (\<not> isl res2 \<longrightarrow> calls2 = map (\<lambda>op. (op, ctx)) (net_ops net)) \<and>
        ((\<forall>op w. \<not> isl (g op ctx w)) \<longrightarrow> \<not> isl res2) \<and>
        res2 = apply_all (\<lambda>op. g op ctx) (net_ops net) w' \<and>
        (isl res2 \<longrightarrow>
           (\<exists>k v. k < length (net_ops net) \<and>
                  apply_all (\<lambda>op. g op ctx) (take k (net_ops net)) w' = Inr v \<and>
                  isl (g (net_ops net ! k) ctx v) \<and>
                  calls2 = take (Suc k) (map (\<lambda>op. (op, ctx)) (net_ops net))))"
    using d e f d' e' by blast
  have p1: "PlainNet_InferShape f net scope w = (res1, net, calls1)"
    by (simp add: PlainNet_InferShape_def 1)
  have p2: "PlainNet_Run g net scope ctx w' = (res2, net, calls2)"
    by (simp add: PlainNet_Run_def 2)
  from i r show ?thesis unfolding p1 p2 prod.case by (rule conjI)
qed

lemma net_ops_net_xyz: "net_ops net_xyz = [''mul'', ''add'', ''sigmoid'']"
  by (simp add: net_xyz_def)

lemma InferShape_net_xyz:
  "PlainNet_InferShape record_InferShape net_xyz () [] =
     (Inr [''shape of mul'', ''shape of add'', ''shape of sigmoid''], net_xyz,
      [''mul'', ''add'', ''sigmoid''])"
  by (simp add: PlainNet_InferShape_def net_xyz_def record_InferShape_def)

lemma Run_net_xyz:
  "PlainNet_Run record_Run net_xyz () 0 [''shape of mul'', ''shape of add'', ''shape of sigmoid''] =
     (Inr [''shape of mul'', ''shape of add'', ''shape of sigmoid'',
           ''run mul'', ''run add'', ''run sigmoid''], net_xyz,
      [(''mul'', 0), (''add'', 0), (''sigmoid'', 0)])"
  by (simp add: PlainNet_Run_def net_xyz_def record_Run_def)

lemma InferShape_strict_net_xyz:
  "PlainNet_InferShape strict_InferShape net_xyz () [] =
     (Inl (EnforceNotMet ''dimensions differ''), net_xyz, [''mul'', ''add''])"
  by (simp add: PlainNet_InferShape_def net_xyz_def strict_InferShape_def)

lemma Run_strict_net_xyz:
  "PlainNet_Run strict_Run net_xyz () 0 [] =
     (Inl (EnforceNotMet ''no kernel''), net_xyz, [(''mul'', 0), (''add'', 0), (''sigmoid'', 0)])"
  by (simp add: PlainNet_Run_def net_xyz_def strict_Run_def)

lemma apply_all_record_InferShape:
  "apply_all record_InferShape (net_ops net_xyz) [] =
     Inr [''shape of mul'', ''shape of add'', ''shape of sigmoid'']"
  by (simp add: net_xyz_def record_InferShape_def)

lemma apply_all_record_Run:
  "apply_all (\<lambda>op. record_Run op 0) (net_ops net_xyz)
     [''shape of mul'', ''shape of add'', ''shape of sigmoid''] =
     Inr [''shape of mul'', ''shape of add'', ''shape of sigmoid'',
          ''run mul'', ''run add'', ''run sigmoid'']"
  by (simp add: net_xyz_def record_Run_def)

theorem PlainNet_passes_in_list_order_witness:
  "(\<forall>op w. \<not> isl (record_InferShape op w)) \<and>
   (\<forall>op w. \<not> isl (record_Run op 0 w)) \<and>
   \<not> isl (fst (PlainNet_InferShape record_InferShape net_xyz () [])) \<and>
   snd (snd (PlainNet_InferShape record_InferShape net_xyz () [])) = [''mul'', ''add'', ''sigmoid''] \<and>
   \<not> isl (fst (PlainNet_Run record_Run net_xyz () 0
                 [''shape of mul'', ''shape of add'', ''shape of sigmoid''])) \<and>
   snd (snd (PlainNet_Run record_Run net_xyz () 0
               [''shape of mul'', ''shape of add'', ''shape of sigmoid''])) =
     [(''mul'', 0), (''add'', 0), (''sigmoid'', 0)] \<and>
   fst (PlainNet_InferShape record_InferShape net_xyz () []) =
     Inr [''shape of mul'', ''shape of add'', ''shape of sigmoid''] \<and>
   apply_all record_InferShape (net_ops net_xyz) [] =
     Inr [''shape of mul'', ''shape of add'', ''shape of sigmoid''] \<and>
   fst (PlainNet_Run record_Run net_xyz () 0
          [''shape of mul'', ''shape of add'', ''shape of sigmoid'']) =
     Inr [''shape of mul'', ''shape of add'', ''shape of sigmoid'',
          ''run mul'', ''run add'', ''run sigmoid''] \<and>
   apply_all (\<lambda>op. record_Run op 0) (net_ops net_xyz)
     [''shape of mul'', ''shape of add'', ''shape of sigmoid''] =
     Inr [''shape of mul'', ''shape of add'', ''shape of sigmoid'',
          ''run mul'', ''run add'', ''run sigmoid''] \<and>
   isl (fst (PlainNet_InferShape strict_InferShape net_xyz () [])) \<and>
   snd (snd (PlainNet_InferShape strict_InferShape net_xyz () [])) = [''mul'', ''add''] \<and>
   apply_all strict_InferShape (take 1 (net_ops net_xyz)) [] = Inr [''shape of mul''] \<and>
   isl (strict_InferShape (net_ops net_xyz ! 1) [''shape of mul'']) \<and>
   isl (fst (PlainNet_Run strict_Run net_xyz () 0 [])) \<and>
   snd (snd (PlainNet_Run strict_Run net_xyz () 0 [])) =
     [(''mul'', 0), (''add'', 0), (''sigmoid'', 0)] \<and>
   apply_all (\<lambda>op. strict_Run op 0) (take 2 (net_ops net_xyz)) [] =
     Inr [''run mul'', ''run add''] \<and>
   isl (strict_Run (net_ops net_xyz ! 2) 0 [''run mul'', ''run add''])"
  using PlainNet_passes_in_list_order
    [where f = record_InferShape and net = net_xyz and scope = "()" and w = "[]"
       and g = record_Run and ctx = 0
       and w' = "[''shape of mul'', ''shape of add'', ''shape of sigmoid'']"]
    PlainNet_passes_in_list_order
    [where f = strict_InferShape and net = net_xyz and scope = "()" and w = "[]"
       and g = strict_Run and ctx = 0 and w' = "[]"]
  by (simp add: InferShape_net_xyz Run_net_xyz InferShape_strict_net_xyz Run_strict_net_xyz
        apply_all_record_InferShape apply_all_record_Run
        record_InferShape_def record_Run_def strict_InferShape_def strict_Run_def net_ops_net_xyz)

subsection \<open>Gradient nodes: the name index\<close>

lemma assign_offsets_idx: "snd (assign_offsets ns idx m) = idx + of_nat (length ns)"
  by (induction ns arbitrary: idx m) simp_all

lemma assign_offsets_other:
  "k \<notin> set ns \<Longrightarrow> fst (assign_offsets ns idx m) k = m k"
  by (induction ns arbitrary: idx m) simp_all

lemma assign_offsets_nth:
  "distinct ns \<Longrightarrow> i < length ns \<Longrightarrow>
   fst (assign_offsets ns idx m) (ns ! i) = Some (idx + of_nat i)"
proof (induction ns arbitrary: idx m i)
  case Nil
  then show ?case by simp
next
  case (Cons n ns)
  show ?case
  proof (cases i)
    case 0
    with Cons.prems show ?thesis by (simp add: assign_offsets_other)
  next
    case (Suc i')
    with Cons.prems have "fst (assign_offsets ns (idx + 1) (m(n \<mapsto> idx))) (ns ! i') =
        Some (idx + 1 + of_nat i')"
      by (intro Cons.IH) simp_all
    with Suc show ?thesis by (simp add: add.assoc)
  qed
qed

lemma grad_varmap_of_eq:
  "grad_varmap_of p =
     fst (assign_offsets (map (\<lambda>n. n @ GRAD_VAR_SUFFIX) (input_names p)) 0
       (fst (assign_offsets (map (\<lambda>n. n @ GRAD_VAR_SUFFIX) (output_names p))
               (of_nat (length (input_names p)) + of_nat (length (output_names p)))
         (fst (assign_offsets (output_names p) (of_nat (length (input_names p)))
           (fst (assign_offsets (input_names p) 0 Map.empty)))))))"
  by (simp add: grad_varmap_of_def input_names_def output_names_def case_prod_unfold
      assign_offsets_idx comp_def)

lemma grad_varmap_of_suffixed:
  assumes d: "distinct (input_names p @ output_names p)"
  shows "suffixed_offsets p (grad_varmap_of p)"
proof -
  let ?ins = "input_names p" and ?outs = "output_names p"
  let ?G = "\<lambda>n. n @ GRAD_VAR_SUFFIX"
  have inj: "inj_on ?G A" for A by (simp add: inj_on_def)
  from d have di: "distinct ?ins" and do: "distinct ?outs"
    and dio: "set ?ins \<inter> set ?outs = {}" by auto
  from di do inj have dGi: "distinct (map ?G ?ins)" and dGo: "distinct (map ?G ?outs)"
    by (simp_all add: distinct_map)
  have 3: "grad_varmap_of p (?outs ! j @ GRAD_VAR_SUFFIX) =
      Some (of_nat (length ?ins + length ?outs + j))" if "j < length ?outs" for j
  proof -
    from that have mem: "?outs ! j \<in> set ?outs" by simp
    with dio have "?outs ! j \<notin> set ?ins" by auto
    then have notin: "?G (?outs ! j) \<notin> set (map ?G ?ins)" by auto
    from that have nth: "?G (?outs ! j) = map ?G ?outs ! j" by simp
    have "fst (assign_offsets (map ?G ?outs) idx m) (map ?G ?outs ! j) = Some (idx + of_nat j)"
      for idx m
      using dGo that by (intro assign_offsets_nth) simp_all
    with notin nth show ?thesis
      by (simp add: grad_varmap_of_eq assign_offsets_other)
  qed
  have 4: "grad_varmap_of p (?ins ! i @ GRAD_VAR_SUFFIX) = Some (of_nat i)"
    if "i < length ?ins" for i
  proof -
    from that have nth: "?G (?ins ! i) = map ?G ?ins ! i" by simp
    have "fst (assign_offsets (map ?G ?ins) idx m) (map ?G ?ins ! i) = Some (idx + of_nat i)"
      for idx m
      using dGi that by (intro assign_offsets_nth) simp_all
    with nth show ?thesis
      by (simp add: grad_varmap_of_eq)
  qed
  from 3 4 show ?thesis by (simp add: suffixed_offsets_def)
qed

lemma grad_varmap_of_plain:
  assumes d: "distinct (input_names p @ output_names p)" and sf: "suffix_free p"
  shows "plain_offsets p (grad_varmap_of p)"
proof -
  let ?ins = "input_names p" and ?outs = "output_names p"
  let ?G = "\<lambda>n. n @ GRAD_VAR_SUFFIX"
  from d have di: "distinct ?ins" and do: "distinct ?outs"
    and dio: "set ?ins \<inter> set ?outs = {}" by auto
  have plain: "x \<notin> set (map ?G ?ins)" "x \<notin> set (map ?G ?outs)"
    if "x \<in> set ?ins \<union> set ?outs" for x
    using that sf by (auto simp: suffix_free_def)
  have 1: "grad_varmap_of p (?ins ! i) = Some (of_nat i)" if "i < length ?ins" for i
  proof -
    from that have mem: "?ins ! i \<in> set ?ins" by simp
    with dio have "?ins ! i \<notin> set ?outs" by auto
    with mem plain [of "?ins ! i"] di that show ?thesis
      by (simp add: grad_varmap_of_eq assign_offsets_other assign_offsets_nth)
  qed
  have 2: "grad_varmap_of p (?outs ! j) = Some (of_nat (length ?ins + j))"
    if "j < length ?outs" for j
  proof -
    from that have mem: "?outs ! j \<in> set ?outs" by simp
    with plain [of "?outs ! j"] do that show ?thesis
      by (simp add: grad_varmap_of_eq assign_offsets_other assign_offsets_nth)
  qed
  from 1 2 show ?thesis by (simp add: plain_offsets_def)
qed

lemma declared_names_slots:
  "distinct (declared_names p) \<Longrightarrow> distinct (input_names p @ output_names p)"
  by (simp add: declared_names_def input_names_def output_names_def)

text \<open>
  Claim C2, amended. For a kind whose schema passed validation (its declared names are
  pairwise distinct), the name index of the gradient node maps the gradient-suffixed output
  slot names to \<open>p+q..p+2q-1\<close> and the gradient-suffixed input slot names to \<open>0..p-1\<close>;
  and when no slot name is itself a slot name followed by the gradient suffix, it also maps
  the input slot names to \<open>0..p-1\<close> and the output slot names to \<open>p..p+q-1\<close>. All
  names share one map, so without that condition a later entry overwrites an earlier one.
\<close>

theorem CreateGradOp_continuous_offsets:
  assumes "grad_creators r (op_type op) = Some grad_create"
    and "Init_keeps grad_create"
    and "fst (CreateGradOp r op) = Inr grad_op"
    and "protos r (op_type op) = Some op_proto"
    and "distinct (declared_names op_proto)"
  shows "\<exists>m. in_out_idxs grad_op = Some m \<and> suffixed_offsets op_proto m \<and>
             (suffix_free op_proto \<longrightarrow> continuous_offsets op_proto m)"
proof -
  from assms(4) have "fst (protos_subscript r (op_type op)) = op_proto"
    by (simp add: protos_subscript_def)
  with CreateGradOp_fields(4) [OF assms(1,2,3)]
  have "in_out_idxs grad_op = Some (grad_varmap_of op_proto)" by simp
  with grad_varmap_of_suffixed [OF declared_names_slots [OF assms(5)]]
    grad_varmap_of_plain [OF declared_names_slots [OF assms(5)]]
  show ?thesis by (simp add: continuous_offsets_def)
qed

lemma suffix_free_ab_c: "suffix_free proto_ab_c"
  by (simp add: suffix_free_def proto_ab_c_def input_names_def output_names_def
      GRAD_VAR_SUFFIX_def)

theorem CreateGradOp_continuous_offsets_witness:
  "grad_creators registry_ex (op_type op_ab_c) = Some noop_creator \<and>
   Init_keeps noop_creator \<and>
   protos registry_ex (op_type op_ab_c) = Some proto_ab_c \<and>
   distinct (declared_names proto_ab_c) \<and>
   suffix_free proto_ab_c \<and>
   (\<exists>g m. fst (CreateGradOp registry_ex op_ab_c) = Inr g \<and> in_out_idxs g = Some m \<and>
      continuous_offsets proto_ab_c m \<and> m ''c@GRAD'' = Some 3 \<and> m ''a@GRAD'' = Some 0)"
proof -
  have 1: "grad_creators registry_ex (op_type op_ab_c) = Some noop_creator"
    and 4: "protos registry_ex (op_type op_ab_c) = Some proto_ab_c"
    by (simp_all add: registry_ex_def op_ab_c_def)
  have 5: "distinct (declared_names proto_ab_c)"
    by (simp add: declared_names_def proto_ab_c_def)
  obtain g where 3: "fst (CreateGradOp registry_ex op_ab_c) = Inr g"
    and g: "in_out_idxs g = Some (grad_varmap_of proto_ab_c)"
    by (simp add: CreateGradOp_ab_c)
  from CreateGradOp_continuous_offsets [OF 1 Init_keeps_noop 3 4 5] suffix_free_ab_c
  obtain m where m: "in_out_idxs g = Some m" "continuous_offsets proto_ab_c m" by blast
  with g have "m = grad_varmap_of proto_ab_c" by simp
  then have "m ''c@GRAD'' = Some 3" "m ''a@GRAD'' = Some 0"
    by (simp_all add: grad_varmap_ab_c)
  with 1 3 4 5 m Init_keeps_noop suffix_free_ab_c show ?thesis by blast
qed

lemma grad_varmap_mul_grad:
  "grad_varmap_of proto_mul_grad =
     [''X'' \<mapsto> 0, ''Out'' \<mapsto> 1, ''Out@GRAD'' \<mapsto> 2, ''X@GRAD'' \<mapsto> 3, ''X@GRAD@GRAD'' \<mapsto> 4,
      ''X@GRAD'' \<mapsto> 0, ''Out@GRAD'' \<mapsto> 1, ''Out@GRAD@GRAD'' \<mapsto> 2]"
  by (simp add: grad_varmap_of_def proto_mul_grad_def GRAD_VAR_SUFFIX_def)

text \<open>
  The kind \<open>mul_grad\<close> is registered with distinct names. In the name index of its
  gradient node the third input slot \<open>Out@GRAD\<close> is found at offset 1, not 2, and the output
  slot \<open>X@GRAD\<close> at offset 0, not 3: the entries written last, for the gradients of the
  inputs \<open>Out\<close> and \<open>X\<close>, have replaced them.
\<close>

theorem continuous_offsets_counterexample:
  "fst (RegisterOp always_initialized no_error_string noop_creator decls_mul_grad ''mul_grad''
         empty_registry) = Inr () \<and>
   RegisterGradOp noop_creator ''mul_grad''
     (snd (RegisterOp always_initialized no_error_string noop_creator decls_mul_grad ''mul_grad''
            empty_registry)) = registry_mul_grad \<and>
   grad_creators registry_mul_grad (op_type op_mul_grad) = Some noop_creator \<and>
   protos registry_mul_grad (op_type op_mul_grad) = Some proto_mul_grad \<and>
   distinct (declared_names proto_mul_grad) \<and>
   input_names proto_mul_grad = [''X'', ''Out'', ''Out@GRAD''] \<and>
   output_names proto_mul_grad = [''X@GRAD''] \<and>
   (\<exists>g m. fst (CreateGradOp registry_mul_grad op_mul_grad) = Inr g \<and> in_out_idxs g = Some m \<and>
      m ''Out@GRAD'' = Some 1 \<and> m ''X@GRAD'' = Some 0 \<and>
      \<not> continuous_offsets proto_mul_grad m)"
proof -
  have g: "CreateGradOp registry_mul_grad op_mul_grad =
     (Inr \<lparr>op_type = ''mul_grad'',
           op_inputs = [''x'', ''y'', ''y@GRAD'', ''x@GRAD'', ''x@GRAD@GRAD''],
           op_outputs = [''x@GRAD'', ''y@GRAD'', ''y@GRAD@GRAD''], op_attrs = Map.empty,
           in_out_idxs = Some (grad_varmap_of proto_mul_grad)\<rparr>, registry_mul_grad)"
    by (simp add: CreateGradOp_def registry_mul_grad_def op_mul_grad_def GenerateGradArgOffset_def
        GenerateGradAttr_def protos_subscript_def AssembleGradInOut_def new_OperatorBase_def
        noop_creator_def GRAD_VAR_SUFFIX_def Let_def)
  have names: "input_names proto_mul_grad = [''X'', ''Out'', ''Out@GRAD'']"
    "output_names proto_mul_grad = [''X@GRAD'']"
    by (simp_all add: input_names_def output_names_def proto_mul_grad_def)
  have v: "grad_varmap_of proto_mul_grad ''Out@GRAD'' = Some 1"
    "grad_varmap_of proto_mul_grad ''X@GRAD'' = Some 0"
    by (simp_all add: grad_varmap_mul_grad)
  have "\<not> plain_offsets proto_mul_grad (grad_varmap_of proto_mul_grad)"
  proof
    assume "plain_offsets proto_mul_grad (grad_varmap_of proto_mul_grad)"
    then have "grad_varmap_of proto_mul_grad ''X@GRAD'' = Some 3"
      unfolding plain_offsets_def names by simp
    with v(2) show False by simp
  qed
  then have n: "\<not> continuous_offsets proto_mul_grad (grad_varmap_of proto_mul_grad)"
    by (simp add: continuous_offsets_def)
  have "distinct (declared_names proto_mul_grad)"
    by (simp add: declared_names_def proto_mul_grad_def)
  moreover have "grad_creators registry_mul_grad (op_type op_mul_grad) = Some noop_creator"
    "protos registry_mul_grad (op_type op_mul_grad) = Some proto_mul_grad"
    by (simp_all add: registry_mul_grad_def op_mul_grad_def)
  ultimately show ?thesis using g names v n registry_mul_grad_registered by simp
qed

subsection \<open>Gradient nodes: the format attributes\<close>

lemma iota_eq: "iota xs v = map (\<lambda>i. v + of_nat i) [0..<length xs]"
proof (induction xs arbitrary: v)
  case Nil
  then show ?case by simp
next
  case (Cons x xs)
  have "map (\<lambda>i. v + of_nat i) [0..<Suc (length xs)] =
        v # map (\<lambda>i. v + of_nat (Suc i)) [0..<length xs]"
    by (simp add: upt_conv_Cons map_Suc_upt [symmetric] del: upt_Suc)
  with Cons.IH [of "v + 1"] show ?case by (simp add: add.assoc add.commute)
qed

lemma iota_0: "iota xs 0 = default_offsets (length xs)"
  by (simp add: iota_eq default_offsets_def)

lemma GetAttr_ints_Inr:
  "GetAttr_ints op n = Inr v \<longleftrightarrow> op_attrs op n = Some (AInts v)"
  by (auto simp: GetAttr_ints_def split: option.splits Attribute.splits)

text \<open>
  What \<^verbatim>\<open>GenerateGradAttr\<close> leaves in the two format attributes, for every forward node:
  the arrays it concatenates are \<open>0, 1, .., k-1\<close> with the lengths of the forward arrays.
\<close>

lemma GenerateGradAttr_attrs:
  assumes "GenerateGradAttr r op g = (Inr g', r')"
    and "protos r (op_type op) = Some p"
  shows "op_attrs g' ''input_format'' =
           (if op_attrs op ''input_format'' = None \<and> op_attrs op ''output_format'' = None
            then None
            else Some (AInts
              (default_offsets (iota_length (op_attrs op ''input_format'') (length (proto_inputs p))) @
               shifted (of_nat (length (op_inputs op)))
                 (default_offsets (iota_length (op_attrs op ''output_format'') (length (proto_outputs p)))) @
               shifted (of_nat (length (op_inputs op)) + of_nat (length (op_outputs op)))
                 (default_offsets (iota_length (op_attrs op ''input_format'') (length (proto_inputs p)))))))"
    and "op_attrs g' ''output_format'' =
           (if op_attrs op ''input_format'' = None then None
            else Some (AInts
              (default_offsets (iota_length (op_attrs op ''input_format'') (length (proto_inputs p))))))"
  using assms
  by (auto simp: GenerateGradAttr_def protos_subscript_def Let_def iota_0 shifted_def
      iota_length_def GetAttr_ints_Inr split: if_splits sum.splits)

lemma CreateGradOp_Inr_protos:
  assumes "grad_creators r (op_type op) = Some c" and "fst (CreateGradOp r op) = Inr g"
    and "protos r (op_type op) = Some p"
  shows "\<exists>g3 r2. GenerateGradAttr r op
            ((AssembleGradInOut op (new_OperatorBase\<lparr>op_type := op_type op\<rparr>))
               \<lparr>in_out_idxs := Some (grad_varmap_of p)\<rparr>) = (Inr g3, r2) \<and>
          Init c g3 = Inr g"
  using assms
  by (auto simp: CreateGradOp_def GenerateGradArgOffset_def protos_subscript_def Let_def
      split: prod.splits sum.splits)

lemma CreateGradOp_attrs:
  assumes "grad_creators r (op_type op) = Some c" and "Init_keeps c"
    and "fst (CreateGradOp r op) = Inr g"
    and "protos r (op_type op) = Some p"
  shows "op_attrs g ''input_format'' =
           (if op_attrs op ''input_format'' = None \<and> op_attrs op ''output_format'' = None
            then None
            else Some (AInts
              (default_offsets (iota_length (op_attrs op ''input_format'') (length (proto_inputs p))) @
               shifted (of_nat (length (op_inputs op)))
                 (default_offsets (iota_length (op_attrs op ''output_format'') (length (proto_outputs p)))) @
               shifted (of_nat (length (op_inputs op)) + of_nat (length (op_outputs op)))
                 (default_offsets (iota_length (op_attrs op ''input_format'') (length (proto_inputs p)))))))"
    and "op_attrs g ''output_format'' =
           (if op_attrs op ''input_format'' = None then None
            else Some (AInts
              (default_offsets (iota_length (op_attrs op ''input_format'') (length (proto_inputs p))))))"
proof -
  from CreateGradOp_Inr_protos [OF assms(1,3,4)] obtain g3 r2 where
    a: "GenerateGradAttr r op
            ((AssembleGradInOut op (new_OperatorBase\<lparr>op_type := op_type op\<rparr>))
               \<lparr>in_out_idxs := Some (grad_varmap_of p)\<rparr>) = (Inr g3, r2)"
    and i: "Init c g3 = Inr g" by blast
  from i assms(2) have g: "g = g3" by (auto simp: Init_keeps_def)
  from GenerateGradAttr_attrs(1) [OF a assms(4)] g
  show "op_attrs g ''input_format'' =
           (if op_attrs op ''input_format'' = None \<and> op_attrs op ''output_format'' = None
            then None
            else Some (AInts
              (default_offsets (iota_length (op_attrs op ''input_format'') (length (proto_inputs p))) @
               shifted (of_nat (length (op_inputs op)))
                 (default_offsets (iota_length (op_attrs op ''output_format'') (length (proto_outputs p)))) @
               shifted (of_nat (length (op_inputs op)) + of_nat (length (op_outputs op)))
                 (default_offsets (iota_length (op_attrs op ''input_format'') (length (proto_inputs p)))))))"
    by simp
  from GenerateGradAttr_attrs(2) [OF a assms(4)] g
  show "op_attrs g ''output_format'' =
           (if op_attrs op ''input_format'' = None then None
            else Some (AInts
              (default_offsets (iota_length (op_attrs op ''input_format'') (length (proto_inputs p))))))"
    by simp
qed

lemma default_offsets_simps:
  "default_offsets 0 = []" "default_offsets (Suc n) = default_offsets n @ [of_nat n]"
  by (simp_all add: default_offsets_def)

lemma counts_up_offsets:
  "counts_up a \<Longrightarrow> default_offsets (iota_length a n) = forward_offsets a n"
  by (auto simp: counts_up_def iota_length_def forward_offsets_def
      split: option.splits Attribute.splits)

lemma counts_up_Some:
  "counts_up a \<Longrightarrow> a \<noteq> None \<Longrightarrow> a = Some (AInts (forward_offsets a n))"
  by (auto simp: counts_up_def forward_offsets_def split: option.splits Attribute.splits)

text \<open>
  Claim C1, amended. A forward node without format attributes gets a gradient node without
  them. For a forward node whose format attributes, where present, count up from zero
  (\<open>counts_up\<close>), and which has at least one of them: the gradient node's
  \<^verbatim>\<open>input_format\<close> is the forward input offsets, then the forward \<^emph>\<open>output\<close> offsets
  shifted by the number of bound inputs, then the forward input offsets shifted by the number
  of bound inputs and outputs, an absent attribute standing for \<open>0, .., n-1\<close> over the
  declared slots; and when the forward node had an \<^verbatim>\<open>input_format\<close>, the gradient node's
  \<^verbatim>\<open>output_format\<close> equals it. Nothing is said here about format arrays that do not
  count up from zero.
\<close>

theorem CreateGradOp_formats:
  assumes "grad_creators r (op_type op) = Some grad_create"
    and "Init_keeps grad_create"
    and "fst (CreateGradOp r op) = Inr grad_op"
    and "protos r (op_type op) = Some op_proto"
  shows
    "(op_attrs op ''input_format'' = None \<and> op_attrs op ''output_format'' = None \<longrightarrow>
        op_attrs grad_op ''input_format'' = None \<and> op_attrs grad_op ''output_format'' = None) \<and>
     (counts_up (op_attrs op ''input_format'') \<and> counts_up (op_attrs op ''output_format'') \<longrightarrow>
        (op_attrs op ''input_format'' \<noteq> None \<or> op_attrs op ''output_format'' \<noteq> None \<longrightarrow>
           op_attrs grad_op ''input_format'' =
             Some (AInts
               (forward_offsets (op_attrs op ''input_format'') (length (proto_inputs op_proto)) @
                shifted (of_nat (length (op_inputs op)))
                  (forward_offsets (op_attrs op ''output_format'')
                     (length (proto_outputs op_proto))) @
                shifted (of_nat (length (op_inputs op)) + of_nat (length (op_outputs op)))
                  (forward_offsets (op_attrs op ''input_format'')
                     (length (proto_inputs op_proto)))))) \<and>
        (op_attrs op ''input_format'' \<noteq> None \<longrightarrow>
           op_attrs grad_op ''output_format'' = op_attrs op ''input_format''))"
proof (intro conjI impI)
  assume "op_attrs op ''input_format'' = None \<and> op_attrs op ''output_format'' = None"
  with CreateGradOp_attrs [OF assms]
  show "op_attrs grad_op ''input_format'' = None" "op_attrs grad_op ''output_format'' = None"
    by simp_all
next
  assume c: "counts_up (op_attrs op ''input_format'') \<and> counts_up (op_attrs op ''output_format'')"
    and h: "op_attrs op ''input_format'' \<noteq> None \<or> op_attrs op ''output_format'' \<noteq> None"
  from h CreateGradOp_attrs(1) [OF assms] c
  show "op_attrs grad_op ''input_format'' =
             Some (AInts
               (forward_offsets (op_attrs op ''input_format'') (length (proto_inputs op_proto)) @
                shifted (of_nat (length (op_inputs op)))
                  (forward_offsets (op_attrs op ''output_format'')
                     (length (proto_outputs op_proto))) @
                shifted (of_nat (length (op_inputs op)) + of_nat (length (op_outputs op)))
                  (forward_offsets (op_attrs op ''input_format'')
                     (length (proto_inputs op_proto)))))"
    by (auto simp: counts_up_offsets)
next
  assume c: "counts_up (op_attrs op ''input_format'') \<and> counts_up (op_attrs op ''output_format'')"
    and h: "op_attrs op ''input_format'' \<noteq> None"
  from c h counts_up_Some [of "op_attrs op ''input_format''" "length (proto_inputs op_proto)"]
  have "op_attrs op ''input_format'' =
      Some (AInts (forward_offsets (op_attrs op ''input_format'') (length (proto_inputs op_proto))))"
    by simp
  with h CreateGradOp_attrs(2) [OF assms] c
  show "op_attrs grad_op ''output_format'' = op_attrs op ''input_format''"
    by (simp add: counts_up_offsets)
qed

lemma CreateGradOp_grouped_1_1:
  "fst (CreateGradOp registry_grouped op_grouped_1_1) =
     Inr \<lparr>op_type = ''grouped'',
          op_inputs = [''x0'', ''y0'', ''o'', ''o@GRAD''],
          op_outputs = [''x0@GRAD'', ''y0@GRAD''],
          op_attrs = [''input_format'' \<mapsto> AInts [0, 1, 2, 2, 3, 4, 5],
                      ''output_format'' \<mapsto> AInts [0, 1, 2]],
          in_out_idxs = Some (grad_varmap_of proto_grouped)\<rparr>"
  by (simp add: CreateGradOp_def registry_grouped_def op_grouped_1_1_def GenerateGradArgOffset_def
      GenerateGradAttr_def protos_subscript_def AssembleGradInOut_def new_OperatorBase_def
      GetAttr_ints_def noop_creator_def GRAD_VAR_SUFFIX_def Let_def proto_grouped_def
      fun_upd_twist)

lemma CreateGradOp_grouped_2_3:
  "fst (CreateGradOp registry_grouped op_grouped_2_3) =
     Inr \<lparr>op_type = ''grouped'',
          op_inputs = [''x0'', ''x1'', ''y0'', ''y1'', ''y2'', ''o'', ''o@GRAD''],
          op_outputs = [''x0@GRAD'', ''x1@GRAD'', ''y0@GRAD'', ''y1@GRAD'', ''y2@GRAD''],
          op_attrs = [''input_format'' \<mapsto> AInts [0, 1, 2, 5, 6, 7, 8],
                      ''output_format'' \<mapsto> AInts [0, 1, 2]],
          in_out_idxs = Some (grad_varmap_of proto_grouped)\<rparr>"
  by (simp add: CreateGradOp_def registry_grouped_def op_grouped_2_3_def GenerateGradArgOffset_def
      GenerateGradAttr_def protos_subscript_def AssembleGradInOut_def new_OperatorBase_def
      GetAttr_ints_def noop_creator_def GRAD_VAR_SUFFIX_def Let_def proto_grouped_def
      fun_upd_twist)

theorem CreateGradOp_formats_witness:
  "grad_creators registry_grouped (op_type op_grouped_1_1) = Some noop_creator \<and>
   Init_keeps noop_creator \<and>
   protos registry_grouped (op_type op_grouped_1_1) = Some proto_grouped \<and>
   counts_up (op_attrs op_grouped_1_1 ''input_format'') \<and>
   counts_up (op_attrs op_grouped_1_1 ''output_format'') \<and>
   op_attrs op_grouped_1_1 ''input_format'' = Some (AInts [0, 1, 2]) \<and>
   (\<exists>g. fst (CreateGradOp registry_grouped op_grouped_1_1) = Inr g \<and>
        op_attrs g ''input_format'' = Some (AInts ([0, 1, 2] @ [2] @ [3, 4, 5])) \<and>
        op_attrs g ''output_format'' = Some (AInts [0, 1, 2])) \<and>
   op_attrs op_ab_c ''input_format'' = None \<and> op_attrs op_ab_c ''output_format'' = None \<and>
   (\<exists>g. fst (CreateGradOp registry_ex op_ab_c) = Inr g \<and>
        op_attrs g ''input_format'' = None \<and> op_attrs g ''output_format'' = None)"
proof -
  have 1: "grad_creators registry_grouped (op_type op_grouped_1_1) = Some noop_creator"
    and 4: "protos registry_grouped (op_type op_grouped_1_1) = Some proto_grouped"
    by (simp_all add: registry_grouped_def op_grouped_1_1_def)
  have a: "op_attrs op_grouped_1_1 ''input_format'' = Some (AInts [0, 1, 2])"
    and b: "op_attrs op_grouped_1_1 ''output_format'' = None"
    and n: "length (op_inputs op_grouped_1_1) = 2" "length (op_outputs op_grouped_1_1) = 1"
    by (simp_all add: op_grouped_1_1_def)
  have d: "default_offsets 2 = [0, 1]" "default_offsets 1 = [0]"
    by (simp_all add: default_offsets_simps eval_nat_numeral)
  from a b have c: "counts_up (op_attrs op_grouped_1_1 ''input_format'')"
    "counts_up (op_attrs op_grouped_1_1 ''output_format'')"
    by (simp_all add: counts_up_def default_offsets_simps)
  obtain g where 3: "fst (CreateGradOp registry_grouped op_grouped_1_1) = Inr g"
    by (simp add: CreateGradOp_grouped_1_1)
  from CreateGradOp_formats [OF 1 Init_keeps_noop 3 4] c a b n d
  have g: "op_attrs g ''input_format'' = Some (AInts ([0, 1, 2] @ [2] @ [3, 4, 5]))"
    "op_attrs g ''output_format'' = Some (AInts [0, 1, 2])"
    by (simp_all add: forward_offsets_def shifted_def proto_grouped_def)
  have e1: "grad_creators registry_ex (op_type op_ab_c) = Some noop_creator"
    and e4: "protos registry_ex (op_type op_ab_c) = Some proto_ab_c"
    and ea: "op_attrs op_ab_c ''input_format'' = None" "op_attrs op_ab_c ''output_format'' = None"
    by (simp_all add: registry_ex_def op_ab_c_def)
  obtain g' where e3: "fst (CreateGradOp registry_ex op_ab_c) = Inr g'"
    by (simp add: CreateGradOp_ab_c)
  from CreateGradOp_formats [OF e1 Init_keeps_noop e3 e4] ea
  have eg: "op_attrs g' ''input_format'' = None" "op_attrs g' ''output_format'' = None"
    by simp_all
  from 1 4 a c 3 g ea e3 eg Init_keeps_noop show ?thesis by blast
qed

text \<open>
  The spec's example, groups of sizes 2 and 3 with format \<open>[0, 2, 5]\<close>: the gradient
  node's \<^verbatim>\<open>input_format\<close> is \<open>[0, 1, 2, 5, 6, 7, 8]\<close> and its \<^verbatim>\<open>output_format\<close> is
  \<open>[0, 1, 2]\<close>. With the format \<open>[0, 1, 2]\<close>, which \<^verbatim>\<open>std::iota\<close> leaves as it is,
  the middle block is the output offsets \<open>[0]\<close> shifted by 2, not a copy of the input
  offsets.
\<close>

theorem three_input_copies_counterexample:
  "op_attrs op_grouped_2_3 ''input_format'' = Some (AInts [0, 2, 5]) \<and>
   three_input_copies op_grouped_2_3 [0, 2, 5] = [0, 2, 5] @ [5, 7, 10] @ [6, 8, 11] \<and>
   (\<exists>g. fst (CreateGradOp registry_grouped op_grouped_2_3) = Inr g \<and>
        op_attrs g ''input_format'' = Some (AInts [0, 1, 2, 5, 6, 7, 8]) \<and>
        op_attrs g ''input_format'' \<noteq> Some (AInts (three_input_copies op_grouped_2_3 [0, 2, 5])) \<and>
        op_attrs g ''output_format'' = Some (AInts [0, 1, 2]) \<and>
        op_attrs g ''output_format'' \<noteq> op_attrs op_grouped_2_3 ''input_format'') \<and>
   op_attrs op_grouped_1_1 ''input_format'' = Some (AInts [0, 1, 2]) \<and>
   three_input_copies op_grouped_1_1 [0, 1, 2] = [0, 1, 2] @ [2, 3, 4] @ [3, 4, 5] \<and>
   (\<exists>g. fst (CreateGradOp registry_grouped op_grouped_1_1) = Inr g \<and>
        op_attrs g ''input_format'' = Some (AInts [0, 1, 2, 2, 3, 4, 5]) \<and>
        op_attrs g ''input_format'' \<noteq> Some (AInts (three_input_copies op_grouped_1_1 [0, 1, 2])))"
proof -
  have a: "op_attrs op_grouped_2_3 ''input_format'' = Some (AInts [0, 2, 5])"
    and b: "three_input_copies op_grouped_2_3 [0, 2, 5] = [0, 2, 5] @ [5, 7, 10] @ [6, 8, 11]"
    by (simp_all add: op_grouped_2_3_def three_input_copies_def shifted_def)
  have c: "op_attrs op_grouped_1_1 ''input_format'' = Some (AInts [0, 1, 2])"
    and d: "three_input_copies op_grouped_1_1 [0, 1, 2] = [0, 1, 2] @ [2, 3, 4] @ [3, 4, 5]"
    by (simp_all add: op_grouped_1_1_def three_input_copies_def shifted_def)
  show ?thesis
    unfolding a b c d CreateGradOp_grouped_2_3 CreateGradOp_grouped_1_1 by simp
qed

subsection \<open>Injection of the bookkeeping attributes\<close>

lemma build_snoc: "build (ds @ [d]) m = run_decl d (build ds m)"
  by (simp add: build_def)

lemmas maker_defs =
  AddInput_def AddInputs_def AddOutput_def AddOutputs_def AddAttr_def AddComment_def
  SetHasMultipleInput_def SetHasMultipleOutput_def SetHasMultiple_def
  SetHasTemporaryOutput_def AddAttrChecker_def SetDefault_def Let_def

lemma flags_fresh_build:
  "has_multiple_input (fresh_build ds) \<longleftrightarrow> (\<exists>d\<in>set ds. declares_multiple_input d)"
  "has_multiple_output (fresh_build ds) \<longleftrightarrow> (\<exists>d\<in>set ds. declares_multiple_output d)"
  "has_temporary_output (fresh_build ds) \<longleftrightarrow> (\<exists>d\<in>set ds. declares_temporary d)"
proof (induction ds rule: rev_induct)
  case Nil
  {
    case 1 show ?case by (simp add: fresh_build_def build_def new_OpProtoAndCheckerMaker_def)
  next
    case 2 show ?case by (simp add: fresh_build_def build_def new_OpProtoAndCheckerMaker_def)
  next
    case 3 show ?case by (simp add: fresh_build_def build_def new_OpProtoAndCheckerMaker_def)
  }
next
  case (snoc d ds)
  {
    case 1 with snoc show ?case
      by (cases d) (auto simp: fresh_build_def build_snoc maker_defs split: option.splits)
  next
    case 2 with snoc show ?case
      by (cases d) (auto simp: fresh_build_def build_snoc maker_defs split: option.splits)
  next
    case 3 with snoc show ?case
      by (cases d) (auto simp: fresh_build_def build_snoc maker_defs split: option.splits)
  }
qed

lemma count_attrs_named:
  "length (attrs_named ''input_format'' (fresh_build ds)) =
     length (filter (declares_attr ''input_format'') ds) +
     (if \<exists>d\<in>set ds. declares_multiple_input d then 1 else 0)"
  "length (attrs_named ''output_format'' (fresh_build ds)) =
     length (filter (declares_attr ''output_format'') ds) +
     (if \<exists>d\<in>set ds. declares_multiple_output d then 1 else 0)"
  "length (attrs_named ''temporary_index'' (fresh_build ds)) =
     length (filter (declares_attr ''temporary_index'') ds) +
     (if \<exists>d\<in>set ds. declares_temporary d then 1 else 0)"
proof (induction ds rule: rev_induct)
  case Nil
  {
    case 1 show ?case
      by (simp add: fresh_build_def build_def new_OpProtoAndCheckerMaker_def attrs_named_def
          empty_OpProto_def)
  next
    case 2 show ?case
      by (simp add: fresh_build_def build_def new_OpProtoAndCheckerMaker_def attrs_named_def
          empty_OpProto_def)
  next
    case 3 show ?case
      by (simp add: fresh_build_def build_def new_OpProtoAndCheckerMaker_def attrs_named_def
          empty_OpProto_def)
  }
next
  case (snoc d ds)
  note fl = flags_fresh_build [of ds, unfolded fresh_build_def]
  {
    case 1 with snoc(1) fl show ?case
      by (cases d)
         (auto simp: fresh_build_def build_snoc maker_defs attrs_named_def split: option.splits)
  next
    case 2 with snoc(2) fl show ?case
      by (cases d)
         (auto simp: fresh_build_def build_snoc maker_defs attrs_named_def split: option.splits)
  next
    case 3 with snoc(3) fl show ?case
      by (cases d)
         (auto simp: fresh_build_def build_snoc maker_defs attrs_named_def split: option.splits)
  }
qed

lemma injected_attrs_named:
  "\<forall>d\<in>set ds. \<not> declares_attr ''input_format'' d \<Longrightarrow>
   attrs_named ''input_format'' (fresh_build ds) =
     (if \<exists>d\<in>set ds. declares_multiple_input d then [format_attr ''input''] else [])"
  "\<forall>d\<in>set ds. \<not> declares_attr ''output_format'' d \<Longrightarrow>
   attrs_named ''output_format'' (fresh_build ds) =
     (if \<exists>d\<in>set ds. declares_multiple_output d then [format_attr ''output''] else [])"
  "\<forall>d\<in>set ds. \<not> declares_attr ''temporary_index'' d \<Longrightarrow>
   attrs_named ''temporary_index'' (fresh_build ds) =
     (if \<exists>d\<in>set ds. declares_temporary d then [temporary_index_attr] else [])"
proof (induction ds rule: rev_induct)
  case Nil
  {
    case 1 show ?case
      by (simp add: fresh_build_def build_def new_OpProtoAndCheckerMaker_def attrs_named_def
          empty_OpProto_def)
  next
    case 2 show ?case
      by (simp add: fresh_build_def build_def new_OpProtoAndCheckerMaker_def attrs_named_def
          empty_OpProto_def)
  next
    case 3 show ?case
      by (simp add: fresh_build_def build_def new_OpProtoAndCheckerMaker_def attrs_named_def
          empty_OpProto_def)
  }
next
  case (snoc d ds)
  note fl = flags_fresh_build [of ds, unfolded fresh_build_def]
  {
    case 1 with snoc(1) fl show ?case
      by (cases d)
         (auto simp: fresh_build_def build_snoc maker_defs attrs_named_def format_attr_def
           split: option.splits)
  next
    case 2 with snoc(2) fl show ?case
      by (cases d)
         (auto simp: fresh_build_def build_snoc maker_defs attrs_named_def format_attr_def
           split: option.splits)
  next
    case 3 with snoc(3) fl show ?case
      by (cases d)
         (auto simp: fresh_build_def build_snoc maker_defs attrs_named_def
           temporary_index_attr_def split: option.splits)
  }
qed

lemma injected_checkers_named:
  "\<forall>d\<in>set ds. \<not> declares_attr ''input_format'' d \<Longrightarrow>
   checkers_named ''input_format'' (fresh_build ds) =
     (if \<exists>d\<in>set ds. declares_multiple_input d
      then [bookkeeping_checker ''input_format'' None] else [])"
  "\<forall>d\<in>set ds. \<not> declares_attr ''output_format'' d \<Longrightarrow>
   checkers_named ''output_format'' (fresh_build ds) =
     (if \<exists>d\<in>set ds. declares_multiple_output d
      then [bookkeeping_checker ''output_format'' None] else [])"
  "\<forall>d\<in>set ds. \<not> declares_attr ''temporary_index'' d \<Longrightarrow>
   checkers_named ''temporary_index'' (fresh_build ds) =
     (if \<exists>d\<in>set ds. declares_temporary d
      then [bookkeeping_checker ''temporary_index'' (Some (AInts []))] else [])"
proof (induction ds rule: rev_induct)
  case Nil
  {
    case 1 show ?case
      by (simp add: fresh_build_def build_def new_OpProtoAndCheckerMaker_def checkers_named_def)
  next
    case 2 show ?case
      by (simp add: fresh_build_def build_def new_OpProtoAndCheckerMaker_def checkers_named_def)
  next
    case 3 show ?case
      by (simp add: fresh_build_def build_def new_OpProtoAndCheckerMaker_def checkers_named_def)
  }
next
  case (snoc d ds)
  note fl = flags_fresh_build [of ds, unfolded fresh_build_def]
  {
    case 1 with snoc(1) fl show ?case
      by (cases d)
         (auto simp: fresh_build_def build_snoc maker_defs checkers_named_def
           bookkeeping_checker_def split: option.splits)
  next
    case 2 with snoc(2) fl show ?case
      by (cases d)
         (auto simp: fresh_build_def build_snoc maker_defs checkers_named_def
           bookkeeping_checker_def split: option.splits)
  next
    case 3 with snoc(3) fl show ?case
      by (cases d)
         (auto simp: fresh_build_def build_snoc maker_defs checkers_named_def
           bookkeeping_checker_def split: option.splits)
  }
qed

text \<open>
  Claim C5, amended. Whatever the sequence of declarations on a new schema: the schema holds
  one \<^verbatim>\<open>input_format\<close> attribute more than the maker declares itself when some input is
  multiple, and none more otherwise, however many multiple inputs there are; likewise
  \<^verbatim>\<open>output_format\<close> for multiple outputs and \<^verbatim>\<open>temporary_index\<close> for temporary
  outputs. When the maker declares no attribute of that name itself, the schema holds
  exactly the injected one: a list-of-int attribute with \<^verbatim>\<open>generated = true\<close>, whose
  checker has \<^emph>\<open>no\<close> default for \<^verbatim>\<open>input_format\<close> and \<^verbatim>\<open>output_format\<close> and the
  empty list as default for \<^verbatim>\<open>temporary_index\<close>.
\<close>

theorem bookkeeping_attributes_injected_once:
  "length (attrs_named ''input_format'' (fresh_build ds)) =
     length (filter (declares_attr ''input_format'') ds) +
     (if \<exists>d\<in>set ds. declares_multiple_input d then 1 else 0) \<and>
   length (attrs_named ''output_format'' (fresh_build ds)) =
     length (filter (declares_attr ''output_format'') ds) +
     (if \<exists>d\<in>set ds. declares_multiple_output d then 1 else 0) \<and>
   length (attrs_named ''temporary_index'' (fresh_build ds)) =
     length (filter (declares_attr ''temporary_index'') ds) +
     (if \<exists>d\<in>set ds. declares_temporary d then 1 else 0) \<and>
   ((\<forall>d\<in>set ds. \<not> declares_attr ''input_format'' d) \<longrightarrow>
      attrs_named ''input_format'' (fresh_build ds) =
        (if \<exists>d\<in>set ds. declares_multiple_input d then [format_attr ''input''] else []) \<and>
      checkers_named ''input_format'' (fresh_build ds) =
        (if \<exists>d\<in>set ds. declares_multiple_input d
         then [bookkeeping_checker ''input_format'' None] else [])) \<and>
   ((\<forall>d\<in>set ds. \<not> declares_attr ''output_format'' d) \<longrightarrow>
      attrs_named ''output_format'' (fresh_build ds) =
        (if \<exists>d\<in>set ds. declares_multiple_output d then [format_attr ''output''] else []) \<and>
      checkers_named ''output_format'' (fresh_build ds) =
        (if \<exists>d\<in>set ds. declares_multiple_output d
         then [bookkeeping_checker ''output_format'' None] else [])) \<and>
   ((\<forall>d\<in>set ds. \<not> declares_attr ''temporary_index'' d) \<longrightarrow>
      attrs_named ''temporary_index'' (fresh_build ds) =
        (if \<exists>d\<in>set ds. declares_temporary d then [temporary_index_attr] else []) \<and>
      checkers_named ''temporary_index'' (fresh_build ds) =
        (if \<exists>d\<in>set ds. declares_temporary d
         then [bookkeeping_checker ''temporary_index'' (Some (AInts []))] else []))"
  using count_attrs_named [of ds] injected_attrs_named [of ds] injected_checkers_named [of ds]
  by blast

lemma decls_grouped_facts:
  "\<forall>d\<in>set decls_grouped. \<not> declares_attr ''input_format'' d"
  "\<forall>d\<in>set decls_grouped. \<not> declares_attr ''output_format'' d"
  "\<forall>d\<in>set decls_grouped. \<not> declares_attr ''temporary_index'' d"
  "\<exists>d\<in>set decls_grouped. declares_multiple_input d"
  "\<exists>d\<in>set decls_grouped. declares_multiple_output d"
  "\<exists>d\<in>set decls_grouped. declares_temporary d"
  by (simp_all add: decls_grouped_def)

theorem bookkeeping_attributes_injected_once_witness:
  "filter (declares_attr ''input_format'') decls_grouped = [] \<and>
   filter (declares_attr ''output_format'') decls_grouped = [] \<and>
   filter (declares_attr ''temporary_index'') decls_grouped = [] \<and>
   length (filter declares_multiple_input decls_grouped) = 2 \<and>
   length (filter declares_multiple_output decls_grouped) = 2 \<and>
   length (filter declares_temporary decls_grouped) = 2 \<and>
   attrs_named ''input_format'' (fresh_build decls_grouped) = [format_attr ''input''] \<and>
   attrs_named ''output_format'' (fresh_build decls_grouped) = [format_attr ''output''] \<and>
   attrs_named ''temporary_index'' (fresh_build decls_grouped) = [temporary_index_attr] \<and>
   checkers_named ''input_format'' (fresh_build decls_grouped) =
     [bookkeeping_checker ''input_format'' None] \<and>
   checkers_named ''output_format'' (fresh_build decls_grouped) =
     [bookkeeping_checker ''output_format'' None] \<and>
   checkers_named ''temporary_index'' (fresh_build decls_grouped) =
     [bookkeeping_checker ''temporary_index'' (Some (AInts []))]"
proof -
  have "length (filter declares_multiple_input decls_grouped) = 2"
    "length (filter declares_multiple_output decls_grouped) = 2"
    "length (filter declares_temporary decls_grouped) = 2"
    "filter (declares_attr ''input_format'') decls_grouped = []"
    "filter (declares_attr ''output_format'') decls_grouped = []"
    "filter (declares_attr ''temporary_index'') decls_grouped = []"
    by (simp_all add: decls_grouped_def)
  with bookkeeping_attributes_injected_once [of decls_grouped] decls_grouped_facts
  show ?thesis by simp
qed

text \<open>
  After one multiple input (output) the checker of \<^verbatim>\<open>input_format\<close>
  (\<^verbatim>\<open>output_format\<close>) has no default; after one temporary output the checker of
  \<^verbatim>\<open>temporary_index\<close> has the empty list.
\<close>

theorem format_default_counterexample:
  "maker_op_checker (fresh_build [DAddInputs ''X'' ''a group'']) =
     [\<lparr>checker_attr_name = ''input_format'', checker_attr_type = INTS, default_value = None\<rparr>] \<and>
   maker_op_checker (fresh_build [DAddOutputs ''Out'' ''a group'' False]) =
     [\<lparr>checker_attr_name = ''output_format'', checker_attr_type = INTS, default_value = None\<rparr>] \<and>
   maker_op_checker (fresh_build [DAddOutput ''Out'' ''scratch'' True False]) =
     [\<lparr>checker_attr_name = ''temporary_index'', checker_attr_type = INTS,
       default_value = Some (AInts [])\<rparr>] \<and>
   default_value (hd (maker_op_checker (fresh_build [DAddInputs ''X'' ''a group''])))
     \<noteq> Some (AInts [])"
  by (simp add: fresh_build_def build_def new_OpProtoAndCheckerMaker_def maker_defs)

subsection \<open>Temporary names\<close>

declare to_string.simps [simp del]

lemma to_string_digits: "set (to_string n) \<subseteq> set ''0123456789''"
proof (induction n rule: to_string.induct)
  case (1 n)
  have d: "''0123456789'' ! k \<in> set ''0123456789''" if "k < 10" for k
    using that by (intro nth_mem) simp
  show ?case
  proof (cases "n < 10")
    case True
    with d [of n] show ?thesis by (subst to_string.simps) simp
  next
    case False
    have "n mod 10 < 10" by simp
    from d [OF this] 1 False show ?thesis by (subst to_string.simps) simp
  qed
qed

lemma to_string_no_at: "CHR ''@'' \<notin> set (to_string n)"
  using to_string_digits [of n] by auto

lemma to_string_not_Nil: "to_string n \<noteq> []"
  by (subst to_string.simps) simp

lemma digit_inj: "a < 10 \<Longrightarrow> b < 10 \<Longrightarrow> ''0123456789'' ! a = ''0123456789'' ! b \<Longrightarrow> a = b"
proof -
  assume "a < 10" "b < 10" "''0123456789'' ! a = ''0123456789'' ! b"
  moreover have "distinct ''0123456789''" by simp
  ultimately show "a = b" by (simp add: nth_eq_iff_index_eq)
qed

lemma to_string_inj: "to_string a = to_string b \<Longrightarrow> a = b"
proof (induction a arbitrary: b rule: to_string.induct)
  case (1 a)
  show ?case
  proof (cases "a < 10")
    case a: True
    show ?thesis
    proof (cases "b < 10")
      case True
      with a "1.prems" have "''0123456789'' ! a = ''0123456789'' ! b"
        by (simp add: to_string.simps [of a] to_string.simps [of b])
      with a True show ?thesis by (rule digit_inj)
    next
      case False
      with a "1.prems" have "to_string (b div 10) = []"
        by (simp add: to_string.simps [of a] to_string.simps [of b] Cons_eq_append_conv)
      with to_string_not_Nil show ?thesis by blast
    qed
  next
    case a: False
    show ?thesis
    proof (cases "b < 10")
      case True
      with a "1.prems" have "to_string (a div 10) = []"
        by (simp add: to_string.simps [of a] to_string.simps [of b] append_eq_Cons_conv)
      with to_string_not_Nil show ?thesis by blast
    next
      case False
      with a "1.prems" have e: "to_string (a div 10) = to_string (b div 10)"
        and d: "''0123456789'' ! (a mod 10) = ''0123456789'' ! (b mod 10)"
        by (simp_all add: to_string.simps [of a] to_string.simps [of b])
      from "1.IH" [OF a e] have "a div 10 = b div 10" .
      moreover from d have "a mod 10 = b mod 10" by (intro digit_inj) simp_all
      ultimately show ?thesis by (metis div_mult_mod_eq)
    qed
  qed
qed

lemma after_last_at:
  assumes "xs @ CHR ''@'' # d1 = ys @ CHR ''@'' # d2"
    and "CHR ''@'' \<notin> set d1" and "CHR ''@'' \<notin> set d2"
  shows "d1 = d2"
proof -
  have tw: "takeWhile (\<lambda>c. c \<noteq> CHR ''@'') (rev (zs @ CHR ''@'' # d)) = rev d"
    if "CHR ''@'' \<notin> set d" for zs d
  proof -
    have "takeWhile (\<lambda>c. c \<noteq> CHR ''@'') (rev d @ CHR ''@'' # rev zs) =
          rev d @ takeWhile (\<lambda>c. c \<noteq> CHR ''@'') (CHR ''@'' # rev zs)"
      by (rule takeWhile_append2) (use that in auto)
    then show ?thesis by simp
  qed
  from assms(1) have "takeWhile (\<lambda>c. c \<noteq> CHR ''@'') (rev (xs @ CHR ''@'' # d1)) =
      takeWhile (\<lambda>c. c \<noteq> CHR ''@'') (rev (ys @ CHR ''@'' # d2))"
    by simp
  with tw [OF assms(2)] tw [OF assms(3)] show ?thesis by simp
qed

lemma temp_name_inj: "temp_name tmp ty1 u1 = temp_name tmp ty2 u2 \<Longrightarrow> u1 = u2"
proof -
  assume "temp_name tmp ty1 u1 = temp_name tmp ty2 u2"
  then have "(tmp @ ty1) @ CHR ''@'' # to_string (unat u1) =
             (tmp @ ty2) @ CHR ''@'' # to_string (unat u2)"
    by (simp add: temp_name_def)
  from after_last_at [OF this to_string_no_at to_string_no_at]
  have "unat u1 = unat u2" by (rule to_string_inj)
  then show ?thesis by (simp add: word_unat_eq_iff)
qed

lemma size_t_of_nat_inj:
  "i < 2 ^ 64 \<Longrightarrow> j < 2 ^ 64 \<Longrightarrow> (of_nat i :: size_t) = of_nat j \<Longrightarrow> i = j"
  by (simp add: word_of_nat_eq_iff take_bit_nat_eq_self)

text \<open>The loop of \<^verbatim>\<open>GenerateTempVariableName\<close>, position by position.\<close>

lemma loop_Cons:
  "GenerateTempVariableName_loop tmp ty (a # outs) uid =
     (if a = tmp
      then (temp_name tmp ty uid # fst (GenerateTempVariableName_loop tmp ty outs (uid + 1)),
            snd (GenerateTempVariableName_loop tmp ty outs (uid + 1)))
      else (a # fst (GenerateTempVariableName_loop tmp ty outs uid),
            snd (GenerateTempVariableName_loop tmp ty outs uid)))"
  by (simp add: rename_output_def temp_name_def case_prod_unfold)

lemma loop_counter:
  "snd (GenerateTempVariableName_loop tmp ty outs uid) = uid + of_nat (count_list outs tmp)"
  by (induction outs arbitrary: uid)
     (simp_all add: loop_Cons add.assoc del: GenerateTempVariableName_loop.simps(2))

lemma loop_length:
  "length (fst (GenerateTempVariableName_loop tmp ty outs uid)) = length outs"
  by (induction outs arbitrary: uid)
     (simp_all add: loop_Cons del: GenerateTempVariableName_loop.simps(2))

lemma loop_nth:
  "i < length outs \<Longrightarrow>
   fst (GenerateTempVariableName_loop tmp ty outs uid) ! i =
     (if outs ! i = tmp
      then temp_name tmp ty (uid + of_nat (count_list (take i outs) tmp))
      else outs ! i)"
proof (induction outs arbitrary: uid i)
  case Nil
  then show ?case by simp
next
  case (Cons a outs)
  show ?case
  proof (cases i)
    case 0
    then show ?thesis
      by (simp add: loop_Cons del: GenerateTempVariableName_loop.simps(2))
  next
    case (Suc i')
    with Cons.prems have "i' < length outs" by simp
    from Cons.IH [OF this] Suc show ?thesis
      by (simp add: loop_Cons add.assoc del: GenerateTempVariableName_loop.simps(2))
  qed
qed

text \<open>Any interleaving keeps the log numbered; a numbered log of at most \<open>2^64\<close> names
  has no repetition.\<close>

lemma numbered_step: "numbered tmp c0 p \<Longrightarrow> numbered tmp c0 (thread_step tmp i p)"
proof -
  assume n: "numbered tmp c0 p"
  show ?thesis
  proof (cases "i < length (threads p) \<and>
      th_pos (threads p ! i) < length (th_outputs (threads p ! i)) \<and>
      th_outputs (threads p ! i) ! th_pos (threads p ! i) = tmp")
    case True
    let ?ty = "th_type (threads p ! i)"
    from True have g: "temp_names (thread_step tmp i p) =
        temp_names p @ [temp_name tmp ?ty (counter p)]"
      and c: "counter (thread_step tmp i p) = counter p + 1"
      by (simp_all add: thread_step_def rename_output_def temp_name_def Let_def)
    from n have cp: "counter p = c0 + of_nat (length (temp_names p))"
      by (simp add: numbered_def)
    have "\<exists>ty. (temp_names p @ [temp_name tmp ?ty (counter p)]) ! k =
        temp_name tmp ty (c0 + of_nat k)" if "k < Suc (length (temp_names p))" for k
    proof (cases "k < length (temp_names p)")
      case True
      with n show ?thesis by (simp add: numbered_def nth_append)
    next
      case False
      with that have "k = length (temp_names p)" by simp
      with cp show ?thesis by (auto simp: nth_append)
    qed
    with g c cp show ?thesis by (simp add: numbered_def)
  next
    case False
    then have "temp_names (thread_step tmp i p) = temp_names p"
      and "counter (thread_step tmp i p) = counter p"
      by (auto simp: thread_step_def rename_output_def Let_def)
    with n show ?thesis by (simp add: numbered_def)
  qed
qed

lemma numbered_run: "numbered tmp c0 p \<Longrightarrow> numbered tmp c0 (run_schedule tmp sched p)"
  unfolding run_schedule_def
  by (induction sched arbitrary: p) (simp_all add: numbered_step)

lemma numbered_distinct:
  assumes "numbered tmp c0 p" and "length (temp_names p) \<le> 2 ^ 64"
  shows "distinct (temp_names p)"
proof -
  have "i = j" if "i < length (temp_names p)" "j < length (temp_names p)"
    "temp_names p ! i = temp_names p ! j" for i j
  proof -
    from assms(1) that(1) obtain ty1 where
      1: "temp_names p ! i = temp_name tmp ty1 (c0 + of_nat i)"
      unfolding numbered_def by blast
    from assms(1) that(2) obtain ty2 where
      2: "temp_names p ! j = temp_name tmp ty2 (c0 + of_nat j)"
      unfolding numbered_def by blast
    from 1 2 that(3) have "temp_name tmp ty1 (c0 + of_nat i) = temp_name tmp ty2 (c0 + of_nat j)"
      by simp
    then have "c0 + of_nat i = c0 + of_nat j"
      by (rule temp_name_inj)
    then have "(of_nat i :: size_t) = of_nat j" by simp
    moreover from that assms(2) have "i < 2 ^ 64" "j < 2 ^ 64" by simp_all
    ultimately show ?thesis by (intro size_t_of_nat_inj)
  qed
  then show ?thesis by (auto simp: distinct_conv_nth)
qed

text \<open>A thread that runs alone computes what \<^verbatim>\<open>GenerateTempVariableName\<close> computes.\<close>

lemma solo_run_from:
  assumes "i < length (threads p)"
    and "threads p ! i = \<lparr>th_type = ty, th_outputs = done @ rest, th_pos = length done\<rparr>"
  shows "threads (run_schedule tmp (replicate (length rest) i) p) ! i =
           \<lparr>th_type = ty,
            th_outputs = done @ fst (GenerateTempVariableName_loop tmp ty rest (counter p)),
            th_pos = length done + length rest\<rparr> \<and>
         counter (run_schedule tmp (replicate (length rest) i) p) =
           snd (GenerateTempVariableName_loop tmp ty rest (counter p))"
  using assms
proof (induction rest arbitrary: p "done")
  case Nil
  then show ?case by (simp add: run_schedule_def)
next
  case (Cons a rest)
  let ?a' = "fst (rename_output tmp ty a (counter p))"
  let ?c' = "snd (rename_output tmp ty a (counter p))"
  let ?p' = "thread_step tmp i p"
  from Cons.prems have len: "i < length (threads ?p')"
    by (simp add: thread_step_def case_prod_unfold Let_def)
  from Cons.prems have thr: "threads ?p' ! i =
      \<lparr>th_type = ty, th_outputs = (done @ [?a']) @ rest, th_pos = length (done @ [?a'])\<rparr>"
    and cnt: "counter ?p' = ?c'"
    by (simp_all add: thread_step_def case_prod_unfold Let_def nth_append list_update_append)
  from Cons.IH [OF len thr] cnt
  show ?case
    by (simp add: run_schedule_def case_prod_unfold)
qed

lemma solo_run:
  assumes "i < length (threads p)"
    and "threads p ! i = \<lparr>th_type = ty, th_outputs = outs, th_pos = 0\<rparr>"
  shows "th_outputs (threads (run_schedule tmp (replicate (length outs) i) p) ! i) =
           fst (GenerateTempVariableName_loop tmp ty outs (counter p)) \<and>
         counter (run_schedule tmp (replicate (length outs) i) p) =
           snd (GenerateTempVariableName_loop tmp ty outs (counter p))"
  using solo_run_from [of i p ty "[]" outs tmp] assms by simp

lemma CreateOp_outputs:
  assumes "creators r type' = Some op_create"
    and "op_checkers r type' = Some op_checker"
    and "Check op_checker attrs = Inr attrs'"
  shows "\<exists>node. CreateOp Check tmp r type' inputs outputs attrs =
           (Init op_create node, r\<lparr>gUniqId := gUniqId r + of_nat (count_list outputs tmp)\<rparr>) \<and>
         length (op_outputs node) = length outputs \<and>
         (\<forall>i < length outputs.
            op_outputs node ! i =
              (if outputs ! i = tmp
               then temp_name tmp type' (gUniqId r + of_nat (count_list (take i outputs) tmp))
               else outputs ! i))"
proof -
  let ?loop = "GenerateTempVariableName_loop tmp type' outputs (gUniqId r)"
  let ?node1 = "\<lparr>op_type = type', op_inputs = inputs, op_outputs = fst ?loop,
                 op_attrs = attrs', in_out_idxs = None\<rparr>"
  let ?node = "case VarIndexMaps r type' of None \<Rightarrow> ?node1
               | Some var_index \<Rightarrow> ?node1\<lparr>in_out_idxs := Some var_index\<rparr>"
  from assms have "CreateOp Check tmp r type' inputs outputs attrs =
      (Init op_create ?node, r\<lparr>gUniqId := snd ?loop\<rparr>)"
    by (simp add: CreateOp_def GenerateTempVariableName_def new_OperatorBase_def
        case_prod_unfold Let_def split: option.splits)
  moreover have "op_outputs ?node = fst ?loop" by (simp split: option.splits)
  ultimately show ?thesis
    by (intro exI [of _ ?node]) (simp add: loop_counter loop_length loop_nth)
qed

text \<open>
  Claim C4, amended. When \<^verbatim>\<open>CreateOp\<close> gets past the creator lookup and the attribute
  check, every bound output equal to the sentinel is replaced by the sentinel followed by the
  kind name, \<open>@\<close> and the decimal value of the process-wide counter, which is advanced by
  one for each such output, whatever the kind. And for concurrent calls, in any interleaving
  of their loop iterations: the counter has advanced by the number of names made, every name
  has that form, and no two of the names are equal as long as at most \<open>2^64\<close> names have
  been made. The counter is a \<^verbatim>\<open>size_t\<close>: after \<open>2^64\<close> increments it is back at its
  first value.
\<close>

theorem temporary_names_distinct:
  "(creators r type' = Some op_create \<and> op_checkers r type' = Some op_checker \<and>
    Check op_checker attrs = Inr attrs' \<longrightarrow>
      (\<exists>node. CreateOp Check tmp r type' inputs outputs attrs =
           (Init op_create node, r\<lparr>gUniqId := gUniqId r + of_nat (count_list outputs tmp)\<rparr>) \<and>
         length (op_outputs node) = length outputs \<and>
         (\<forall>i < length outputs.
            op_outputs node ! i =
              (if outputs ! i = tmp
               then temp_name tmp type' (gUniqId r + of_nat (count_list (take i outputs) tmp))
               else outputs ! i)))) \<and>
   (temp_names p = [] \<and> length (temp_names (run_schedule tmp sched p)) \<le> 2 ^ 64 \<longrightarrow>
      distinct (temp_names (run_schedule tmp sched p)) \<and>
      counter (run_schedule tmp sched p) =
        counter p + of_nat (length (temp_names (run_schedule tmp sched p))) \<and>
      (\<forall>n \<in> set (temp_names (run_schedule tmp sched p)). \<exists>ty uid. n = temp_name tmp ty uid))"
proof (intro conjI impI)
  assume "creators r type' = Some op_create \<and> op_checkers r type' = Some op_checker \<and>
    Check op_checker attrs = Inr attrs'"
  then show "\<exists>node. CreateOp Check tmp r type' inputs outputs attrs =
           (Init op_create node, r\<lparr>gUniqId := gUniqId r + of_nat (count_list outputs tmp)\<rparr>) \<and>
         length (op_outputs node) = length outputs \<and>
         (\<forall>i < length outputs.
            op_outputs node ! i =
              (if outputs ! i = tmp
               then temp_name tmp type' (gUniqId r + of_nat (count_list (take i outputs) tmp))
               else outputs ! i))"
    using CreateOp_outputs [of r type' op_create op_checker Check attrs attrs' tmp inputs outputs]
    by blast
next
  assume a: "temp_names p = [] \<and> length (temp_names (run_schedule tmp sched p)) \<le> 2 ^ 64"
  then have "numbered tmp (counter p) p" by (simp add: numbered_def)
  then have n: "numbered tmp (counter p) (run_schedule tmp sched p)" by (rule numbered_run)
  from n a show "distinct (temp_names (run_schedule tmp sched p))"
    by (intro numbered_distinct [of tmp "counter p"]) simp_all
  from n show "counter (run_schedule tmp sched p) =
        counter p + of_nat (length (temp_names (run_schedule tmp sched p)))"
    by (simp add: numbered_def)
  show "\<forall>n \<in> set (temp_names (run_schedule tmp sched p)). \<exists>ty uid. n = temp_name tmp ty uid"
  proof
    fix x
    assume "x \<in> set (temp_names (run_schedule tmp sched p))"
    then obtain i where "i < length (temp_names (run_schedule tmp sched p))"
      "temp_names (run_schedule tmp sched p) ! i = x"
      by (auto simp: in_set_conv_nth)
    with n show "\<exists>ty uid. x = temp_name tmp ty uid"
      unfolding numbered_def by metis
  qed
qed

lemma run_process_two:
  "run_schedule ''@TEMP@'' [0, 1, 1, 0, 0] process_two =
     \<lparr>counter = 4,
      threads = [\<lparr>th_type = ''mul'', th_outputs = [''@TEMP@mul@0'', ''y'', ''@TEMP@mul@3''],
                  th_pos = 3\<rparr>,
                 \<lparr>th_type = ''add'', th_outputs = [''@TEMP@add@1'', ''@TEMP@add@2''],
                  th_pos = 2\<rparr>],
      temp_names = [''@TEMP@mul@0'', ''@TEMP@add@1'', ''@TEMP@add@2'', ''@TEMP@mul@3'']\<rparr>"
  by (simp add: run_schedule_def process_two_def thread_step_def rename_output_def
      to_string.simps Let_def)

lemma CreateOp_scale_temps:
  "CreateOp Check_required ''@TEMP@'' registry_scale ''scale'' [''x'']
       [''@TEMP@'', ''y'', ''@TEMP@''] [''factor'' \<mapsto> AFloat 3] =
     (Inr \<lparr>op_type = ''scale'', op_inputs = [''x''],
           op_outputs = [''@TEMP@scale@7'', ''y'', ''@TEMP@scale@8''],
           op_attrs = [''factor'' \<mapsto> AFloat 3], in_out_idxs = None\<rparr>,
      registry_scale\<lparr>gUniqId := 9\<rparr>)"
  by (simp add: CreateOp_def registry_scale_def GenerateTempVariableName_def
      new_OperatorBase_def rename_output_def noop_creator_def to_string.simps)

theorem temporary_names_distinct_witness:
  "creators registry_scale ''scale'' = Some noop_creator \<and>
   Check_required (the (op_checkers registry_scale ''scale'')) [''factor'' \<mapsto> AFloat 3] =
     Inr [''factor'' \<mapsto> AFloat 3] \<and>
   (\<exists>node. CreateOp Check_required ''@TEMP@'' registry_scale ''scale'' [''x'']
              [''@TEMP@'', ''y'', ''@TEMP@''] [''factor'' \<mapsto> AFloat 3] =
            (Inr node, registry_scale\<lparr>gUniqId := 9\<rparr>) \<and>
          op_outputs node = [''@TEMP@scale@7'', ''y'', ''@TEMP@scale@8'']) \<and>
   temp_names process_two = [] \<and>
   temp_names (run_schedule ''@TEMP@'' [0, 1, 1, 0, 0] process_two) =
     [''@TEMP@mul@0'', ''@TEMP@add@1'', ''@TEMP@add@2'', ''@TEMP@mul@3''] \<and>
   distinct (temp_names (run_schedule ''@TEMP@'' [0, 1, 1, 0, 0] process_two)) \<and>
   counter (run_schedule ''@TEMP@'' [0, 1, 1, 0, 0] process_two) = 4"
proof -
  have 1: "creators registry_scale ''scale'' = Some noop_creator"
    and 2: "op_checkers registry_scale ''scale'' =
      Some [\<lparr>checker_attr_name = ''factor'', checker_attr_type = FLOAT, default_value = None\<rparr>]"
    by (simp_all add: registry_scale_def)
  have 3: "Check_required
      [\<lparr>checker_attr_name = ''factor'', checker_attr_type = FLOAT, default_value = None\<rparr>]
      [''factor'' \<mapsto> AFloat 3] = Inr [''factor'' \<mapsto> AFloat 3]"
    by simp
  have 4: "temp_names process_two = []" by (simp add: process_two_def)
  have 5: "temp_names (run_schedule ''@TEMP@'' [0, 1, 1, 0, 0] process_two) =
     [''@TEMP@mul@0'', ''@TEMP@add@1'', ''@TEMP@add@2'', ''@TEMP@mul@3'']"
    and 6: "counter (run_schedule ''@TEMP@'' [0, 1, 1, 0, 0] process_two) = 4"
    using run_process_two by simp_all
  from 5 have 7: "length (temp_names (run_schedule ''@TEMP@'' [0, 1, 1, 0, 0] process_two)) \<le> 2 ^ 64"
    by simp
  from temporary_names_distinct
    [where r = registry_scale and type' = "''scale''" and op_create = noop_creator
       and op_checker = "[\<lparr>checker_attr_name = ''factor'', checker_attr_type = FLOAT,
                            default_value = None\<rparr>]"
       and Check = Check_required and attrs = "[''factor'' \<mapsto> AFloat 3]"
       and attrs' = "[''factor'' \<mapsto> AFloat 3]" and tmp = "''@TEMP@''"
       and inputs = "[''x'']" and outputs = "[''@TEMP@'', ''y'', ''@TEMP@'']"
       and p = process_two and sched = "[0, 1, 1, 0, 0]"]
    1 2 3 4 7
  have d: "distinct (temp_names (run_schedule ''@TEMP@'' [0, 1, 1, 0, 0] process_two))"
    by blast
  have "\<exists>node. CreateOp Check_required ''@TEMP@'' registry_scale ''scale'' [''x'']
              [''@TEMP@'', ''y'', ''@TEMP@''] [''factor'' \<mapsto> AFloat 3] =
            (Inr node, registry_scale\<lparr>gUniqId := 9\<rparr>) \<and>
          op_outputs node = [''@TEMP@scale@7'', ''y'', ''@TEMP@scale@8'']"
    by (simp add: CreateOp_scale_temps)
  with 1 2 3 4 5 6 d show ?thesis by simp
qed

lemma CreateOp_scale_one:
  "CreateOp Check_required ''@TEMP@'' (registry_scale\<lparr>gUniqId := c\<rparr>) ''scale'' [''x'']
       [''@TEMP@''] scale_attrs =
     (Inr (scale_node c), registry_scale\<lparr>gUniqId := c + 1\<rparr>)"
  by (simp add: CreateOp_def registry_scale_def GenerateTempVariableName_def
      new_OperatorBase_def rename_output_def noop_creator_def scale_node_def temp_name_def
      scale_attrs_def)

lemma CreateOp_calls_replicate:
  "fst (CreateOp_calls Check_required ''@TEMP@''
          (replicate n (''scale'', [''x''], [''@TEMP@''], scale_attrs))
          (registry_scale\<lparr>gUniqId := c\<rparr>)) =
     map (\<lambda>i. Inr (scale_node (c + of_nat i))) [0..<n]"
proof (induction n arbitrary: c)
  case 0
  then show ?case by simp
next
  case (Suc n)
  have "map (\<lambda>i. Inr (scale_node (c + of_nat i)) :: error + OperatorBase) [0..<Suc n] =
        Inr (scale_node c) # map (\<lambda>i. Inr (scale_node (c + of_nat (Suc i)))) [0..<n]"
    by (simp add: upt_conv_Cons map_Suc_upt [symmetric] del: upt_Suc)
  with Suc.IH [of "c + 1"] show ?case
    by (simp add: CreateOp_scale_one case_prod_unfold ac_simps)
qed

text \<open>
  A process that calls \<^verbatim>\<open>CreateOp\<close> \<open>2^64 + 1\<close> times for the kind \<open>scale\<close>, each time
  with one temporary output: every call returns a node, and the name made by the last call
  is the name made by the first.
\<close>

theorem temporary_names_wrap_counterexample:
  "\<exists>nodes.
     fst (CreateOp_calls Check_required ''@TEMP@''
            (replicate (2 ^ 64 + 1) (''scale'', [''x''], [''@TEMP@''], scale_attrs))
            registry_scale) = map Inr nodes \<and>
     length nodes = 2 ^ 64 + 1 \<and>
     op_outputs (nodes ! 0) = op_outputs (nodes ! (2 ^ 64)) \<and>
     \<not> distinct (concat (map op_outputs nodes))"
proof -
  let ?f = "\<lambda>i. temp_name ''@TEMP@'' ''scale'' (7 + of_nat i)"
  let ?nodes = "map (\<lambda>i. scale_node (7 + of_nat i)) [0..<2 ^ 64 + 1]"
  have r: "registry_scale = registry_scale\<lparr>gUniqId := 7\<rparr>"
    by (simp add: registry_scale_def)
  have 1: "fst (CreateOp_calls Check_required ''@TEMP@''
            (replicate (2 ^ 64 + 1) (''scale'', [''x''], [''@TEMP@''], scale_attrs))
            registry_scale) = map Inr ?nodes"
    by (subst r) (simp add: CreateOp_calls_replicate comp_def)
  have z: "(18446744073709551616 :: size_t) = 0" by simp
  have 2: "length ?nodes = 2 ^ 64 + 1" by simp
  have n0: "?nodes ! 0 = scale_node 7"
    by (subst nth_map) simp_all
  have n1: "?nodes ! (2 ^ 64) = scale_node 7"
    by (subst nth_map) (simp_all add: z)
  from n0 n1 have 3: "op_outputs (?nodes ! 0) = op_outputs (?nodes ! (2 ^ 64))" by simp
  have c: "concat (map op_outputs ?nodes) = map ?f [0..<2 ^ 64 + 1]"
    by (simp add: comp_def scale_node_def)
  have "?f 0 = ?f (2 ^ 64)" by (simp add: z)
  moreover have "(0::nat) \<in> set [0..<2 ^ 64 + 1]" "(2 ^ 64 :: nat) \<in> set [0..<2 ^ 64 + 1]"
    by simp_all
  ultimately have "\<not> inj_on ?f (set [0..<2 ^ 64 + 1])"
    unfolding inj_on_def by (metis zero_neq_numeral power_eq_0_iff)
  then have 4: "\<not> distinct (concat (map op_outputs ?nodes))"
    unfolding c by (simp add: distinct_map)
  from 1 2 3 4 show ?thesis by blast
qed

end
